theory Spec2Isabelle
  imports Complex_Main
begin

section \<open>Batch scoring drivers: shared vocabulary\<close>

text \<open>
  The repository's executable logic is four scoring drivers (\<^verbatim>\<open>batch_driver.py\<close>), each a
  pair \<^verbatim>\<open>init()\<close> / \<^verbatim>\<open>run(mini_batch)\<close>:
  \<^item> the torch MNIST image classifier (\<^verbatim>\<open>deployment-torch/code/batch_driver.py\<close>),
  \<^item> the keras ImageNet image classifier (\<^verbatim>\<open>deployment-keras/code/batch_driver.py\<close>),
  \<^item> the BART text summarizer (\<^verbatim>\<open>code/batch_driver.py\<close> of the summarization notebook),
  \<^item> the heart classifier that writes parquet files itself
    (\<^verbatim>\<open>code/batch_driver.py\<close> of the custom-output notebook).

  Every Python exception is a value of \<open>error\<close>; a call that may raise returns
  \<open>error + 'a\<close> with \<open>Inl\<close> the exception. Calls into torch, tensorflow, transformers,
  datasets, pandas' readers, mlflow, glob and the process environment are fields of a record
  of library functions that each driver takes as its first argument; what a driver does with
  their results is written out. The module globals assigned by \<^verbatim>\<open>init\<close> are a record that
  \<^verbatim>\<open>init\<close> returns and \<^verbatim>\<open>run\<close> takes as an argument. No \<^verbatim>\<open>run\<close> has a
  \<^verbatim>\<open>global\<close> statement, so none can rebind them: \<^verbatim>\<open>run\<close> returns no new worker state.
\<close>

datatype error =
    KeyError string
  | IndexError
  | UnboundLocalError string
  | ValueError
  | TypeError
  | FileNotFoundError string
  | LibraryError string

type_synonym path = string

subsection \<open>\<^verbatim>\<open>os.path.basename\<close>, \<^verbatim>\<open>os.path.join\<close> and \<^verbatim>\<open>pathlib.Path.stem\<close> (POSIX)\<close>

text \<open>\<^verbatim>\<open>s.rfind(c)\<close>: the highest index of \<open>c\<close> in \<open>s\<close>, or \<open>-1\<close>.\<close>

fun rfind :: "string \<Rightarrow> char \<Rightarrow> int" where
  "rfind [] c = -1"
| "rfind (x # xs) c =
     (let r = rfind xs c in
      if r \<noteq> -1 then r + 1 else if x = c then 0 else -1)"

text \<open>\<^verbatim>\<open>i = p.rfind('/') + 1; return p[i:]\<close>\<close>

definition basename :: "path \<Rightarrow> string" where
  "basename p = (let i = rfind p CHR ''/'' + 1 in drop (nat i) p)"

text \<open>
  \<^verbatim>\<open>posixpath.join(a, b)\<close> for one component \<open>b\<close>: \<open>b\<close> alone when it is absolute, no
  separator added when \<open>a\<close> is empty or ends with one.
\<close>

definition path_join :: "path \<Rightarrow> string \<Rightarrow> path" where
  "path_join a b =
     (if b \<noteq> [] \<and> hd b = CHR ''/'' then b
      else if a = [] \<or> last a = CHR ''/'' then a @ b
      else a @ ''/'' @ b)"

text \<open>\<^verbatim>\<open>s.split('/')\<close>: the fields between separators; never an empty list.\<close>

fun split_sep :: "string \<Rightarrow> string list" where
  "split_sep [] = [[]]"
| "split_sep (x # xs) =
     (if x = CHR ''/'' then [] # split_sep xs
      else (case split_sep xs of
              f # fs \<Rightarrow> (x # f) # fs
            | [] \<Rightarrow> [[x]]))"

text \<open>
  \<^verbatim>\<open>PurePosixPath(p).name\<close>: the path's components are its fields other than \<^verbatim>\<open>''\<close> and
  \<^verbatim>\<open>'.'\<close>; the name is the last component, or \<^verbatim>\<open>''\<close> when there is none.
\<close>

definition path_name :: "path \<Rightarrow> string" where
  "path_name p =
     (let parts = filter (\<lambda>x. x \<noteq> [] \<and> x \<noteq> ''.'') (split_sep p)
      in if parts = [] then [] else last parts)"

text \<open>
  \<^verbatim>\<open>i = name.rfind('.'); return name[:i] if 0 < i < len(name) - 1 else name\<close>
\<close>

definition stem :: "path \<Rightarrow> string" where
  "stem p =
     (let name = path_name p; i = rfind name CHR ''.''
      in if 0 < i \<and> i < int (length name) - 1 then take (nat i) name else name)"

subsection \<open>Softmax and maximum\<close>

text \<open>
  Tensors of shape \<open>(1, C)\<close> are the list of their \<open>C\<close> entries. The entries are real numbers:
  rounding, infinities and NaN of IEEE arithmetic are outside this model.
  \<^verbatim>\<open>Softmax(dim=-1)\<close> and \<^verbatim>\<open>tf.math.softmax(axis=-1)\<close> are the function below.
\<close>

definition softmax :: "real list \<Rightarrow> real list" where
  "softmax xs = map (\<lambda>x. exp x / sum_list (map exp xs)) xs"

text \<open>
  The running maximum of a list with its index, the first maximal entry winning a tie:
  \<open>max_from best bi i xs\<close> continues from the best entry \<open>best\<close>, found at index \<open>bi\<close>, with
  \<open>xs\<close> starting at index \<open>i\<close>.
\<close>

fun max_from :: "real \<Rightarrow> nat \<Rightarrow> nat \<Rightarrow> real list \<Rightarrow> real \<times> nat" where
  "max_from best bi i [] = (best, bi)"
| "max_from best bi i (x # xs) =
     (if best < x then max_from x i (Suc i) xs else max_from best bi (Suc i) xs)"

text \<open>
  \<^verbatim>\<open>torch.max(t, axis=-1)\<close>: the pair (values, indices); it raises on a dimension of
  size 0.
\<close>

definition torch_max :: "real list \<Rightarrow> error + real \<times> nat" where
  "torch_max xs =
     (case xs of
        [] \<Rightarrow> Inl (LibraryError ''max(): cannot reduce over a dimension of size 0'')
      | x # r \<Rightarrow> Inr (max_from x 0 1 r))"

section \<open>The torch driver\<close>

datatype device = Cuda0 | Cpu

text \<open>The process environment and \<^verbatim>\<open>glob.glob\<close>, which every \<^verbatim>\<open>init\<close> reads.\<close>

record host =
  environ :: "string \<rightharpoonup> string"
  glob :: "string \<Rightarrow> path list"

text \<open>\<^verbatim>\<open>os.environ[k]\<close>\<close>

definition getenv :: "'z host_scheme \<Rightarrow> string \<Rightarrow> error + string" where
  "getenv H k = (case environ H k of None \<Rightarrow> Inl (KeyError k) | Some v \<Rightarrow> Inr v)"

text \<open>\<^verbatim>\<open>glob.glob(pattern)[-1]\<close>\<close>

definition glob_last :: "'z host_scheme \<Rightarrow> string \<Rightarrow> error + path" where
  "glob_last H pattern =
     (case glob H pattern of [] \<Rightarrow> Inl IndexError | f # fs \<Rightarrow> Inr (last (f # fs)))"

text \<open>
  \<open>torch_load\<close> is \<^verbatim>\<open>torch.load(model_file)\<close>; \<open>load_state_dict\<close> is
  \<^verbatim>\<open>MnistClassifier()\<close>, \<^verbatim>\<open>load_state_dict\<close> and \<^verbatim>\<open>eval()\<close>; \<open>read_image\<close> is
  \<^verbatim>\<open>torchvision.io.read_image(p).float().expand(1, -1, -1, -1)\<close>; \<open>forward\<close> is
  \<^verbatim>\<open>model(batch_data.to(device))\<close> under \<^verbatim>\<open>no_grad\<close>, giving the logits.
\<close>

record ('img, 'sd, 'model) torch_libs = host +
  torch_load :: "path \<Rightarrow> error + 'sd"
  load_state_dict :: "'sd \<Rightarrow> error + 'model"
  cuda_is_available :: bool
  read_image :: "path \<Rightarrow> error + 'img"
  forward :: "'model \<Rightarrow> device \<Rightarrow> 'img \<Rightarrow> error + real list"

record 'model torch_state =
  torch_model :: 'model
  torch_device :: device

definition init_torch :: "('img, 'sd, 'model) torch_libs \<Rightarrow> error + 'model torch_state" where
  "init_torch L =
     (case getenv L ''AZUREML_MODEL_DIR'' of
        Inl e \<Rightarrow> Inl e
      | Inr model_path \<Rightarrow>
     (case glob_last L (model_path @ ''/*/*.pt'') of
        Inl e \<Rightarrow> Inl e
      | Inr model_file \<Rightarrow>
     (case torch_load L model_file of
        Inl e \<Rightarrow> Inl e
      | Inr sd \<Rightarrow>
     (case load_state_dict L sd of
        Inl e \<Rightarrow> Inl e
      | Inr m \<Rightarrow>
          Inr \<lparr>torch_model = m,
               torch_device = (if cuda_is_available L then Cuda0 else Cpu)\<rparr>))))"

text \<open>
  One row of the returned \<^verbatim>\<open>pd.DataFrame\<close>, with its columns \<^verbatim>\<open>file\<close>, \<^verbatim>\<open>class\<close> and
  \<^verbatim>\<open>probability\<close>.
\<close>

record prediction =
  pred_file :: string
  pred_class :: nat
  pred_probability :: real

text \<open>\<^verbatim>\<open>t.numpy()\<close> raises \<^verbatim>\<open>TypeError\<close> on a tensor that lives on a CUDA device.\<close>

definition numpy :: "device \<Rightarrow> 'a \<Rightarrow> error + 'a" where
  "numpy d v = (if d = Cpu then Inr v else Inl TypeError)"

text \<open>
  The body of the \<^verbatim>\<open>for image_path in mini_batch\<close> loop: first the logits of one image
  (read, expand, move to the device, apply the model), then the record made of them.
\<close>

definition torch_logits ::
  "('img, 'sd, 'model) torch_libs \<Rightarrow> 'model torch_state \<Rightarrow> path \<Rightarrow> error + real list" where
  "torch_logits L st image_path =
     (case read_image L image_path of
        Inl e \<Rightarrow> Inl e
      | Inr input \<Rightarrow> forward L (torch_model st) (torch_device st) input)"

definition score_torch ::
  "('img, 'sd, 'model) torch_libs \<Rightarrow> 'model torch_state \<Rightarrow> path \<Rightarrow> error + prediction" where
  "score_torch L st image_path =
     (case torch_logits L st image_path of
        Inl e \<Rightarrow> Inl e
      | Inr predict_logits \<Rightarrow>
     (case torch_max (softmax predict_logits) of
        Inl e \<Rightarrow> Inl e
      | Inr (predicted_prob, predicted_class) \<Rightarrow>
     (case numpy (torch_device st) predicted_class of
        Inl e \<Rightarrow> Inl e
      | Inr c \<Rightarrow>
     (case numpy (torch_device st) predicted_prob of
        Inl e \<Rightarrow> Inl e
      | Inr p \<Rightarrow>
          Inr \<lparr>pred_file = basename image_path, pred_class = c, pred_probability = p\<rparr>))))"

text \<open>
  A \<^verbatim>\<open>for\<close> loop that appends one result per item to \<^verbatim>\<open>results\<close>; the first exception
  leaves the loop and the function.
\<close>

fun for_each :: "('a \<Rightarrow> error + 'b) \<Rightarrow> 'a list \<Rightarrow> error + 'b list" where
  "for_each f [] = Inr []"
| "for_each f (x # xs) =
     (case f x of
        Inl e \<Rightarrow> Inl e
      | Inr y \<Rightarrow> (case for_each f xs of Inl e \<Rightarrow> Inl e | Inr ys \<Rightarrow> Inr (y # ys)))"

definition run_torch ::
  "('img, 'sd, 'model) torch_libs \<Rightarrow> 'model torch_state \<Rightarrow> path list \<Rightarrow> error + prediction list"
where
  "run_torch L st mini_batch = for_each (score_torch L st) mini_batch"

section \<open>The keras driver\<close>

text \<open>
  \<^verbatim>\<open>tf.math.reduce_max\<close> over all entries. On a tensor with no entries tensorflow returns
  \<open>-\<infinity>\<close>, which is no real number; the \<^verbatim>\<open>tf.math.argmax\<close> that follows in the driver
  raises on that tensor, so no record ever carries the value given here for \<open>[]\<close>.
\<close>

definition reduce_max :: "real list \<Rightarrow> real" where
  "reduce_max xs = (case xs of [] \<Rightarrow> 0 | x # r \<Rightarrow> fst (max_from x 0 1 r))"

text \<open>\<^verbatim>\<open>tf.math.argmax(t, axis=-1)[0]\<close>; it raises on an axis of size 0.\<close>

definition tf_argmax :: "real list \<Rightarrow> error + nat" where
  "tf_argmax xs =
     (case xs of
        [] \<Rightarrow> Inl (LibraryError ''Reduction axis -1 is empty'')
      | x # r \<Rightarrow> Inr (snd (max_from x 0 1 r)))"

text \<open>
  \<open>load_model\<close> is \<^verbatim>\<open>tensorflow.keras.models.load_model\<close>; \<open>open_image\<close> is
  \<^verbatim>\<open>tf.expand_dims(np.array(Image.open(p)), axis=0)\<close>; \<open>keras_predict\<close> is
  \<^verbatim>\<open>model.predict(data_batch)\<close>.
\<close>

record ('img, 'model) keras_libs = host +
  load_model :: "path \<Rightarrow> error + 'model"
  open_image :: "path \<Rightarrow> error + 'img"
  keras_predict :: "'model \<Rightarrow> 'img \<Rightarrow> error + real list"

record 'model keras_state =
  keras_model :: 'model

definition init_keras :: "('img, 'model) keras_libs \<Rightarrow> error + 'model keras_state" where
  "init_keras L =
     (case getenv L ''AZUREML_MODEL_DIR'' of
        Inl e \<Rightarrow> Inl e
      | Inr dir \<Rightarrow>
     (case load_model L (path_join dir ''model'') of
        Inl e \<Rightarrow> Inl e
      | Inr m \<Rightarrow> Inr \<lparr>keras_model = m\<rparr>))"

definition keras_logits ::
  "('img, 'model) keras_libs \<Rightarrow> 'model keras_state \<Rightarrow> path \<Rightarrow> error + real list" where
  "keras_logits L st image_path =
     (case open_image L image_path of
        Inl e \<Rightarrow> Inl e
      | Inr data_batch \<Rightarrow> keras_predict L (keras_model st) data_batch)"

definition score_keras ::
  "('img, 'model) keras_libs \<Rightarrow> 'model keras_state \<Rightarrow> path \<Rightarrow> error + prediction" where
  "score_keras L st image_path =
     (case keras_logits L st image_path of
        Inl e \<Rightarrow> Inl e
      | Inr pred \<Rightarrow>
          (let pred_prob = reduce_max (softmax pred) in
           case tf_argmax pred of
             Inl e \<Rightarrow> Inl e
           | Inr c \<Rightarrow>
               Inr \<lparr>pred_file = basename image_path, pred_class = c,
                    pred_probability = pred_prob\<rparr>))"

definition run_keras ::
  "('img, 'model) keras_libs \<Rightarrow> 'model keras_state \<Rightarrow> path list \<Rightarrow> error + prediction list"
where
  "run_keras L st mini_batch = for_each (score_keras L st) mini_batch"

section \<open>The text summarization driver\<close>

text \<open>
  \<open>cuda_report\<close> is the three prints of the CUDA branch (\<^verbatim>\<open>torch.version.cuda\<close>,
  \<^verbatim>\<open>torch.cuda.current_device()\<close>, \<^verbatim>\<open>subprocess.run(['nvidia-smi'])\<close>);
  \<open>model_from_pretrained p auto\<close> is \<^verbatim>\<open>BartForConditionalGeneration.from_pretrained\<close>, with
  \<^verbatim>\<open>device_map="auto"\<close> when \<open>auto\<close> holds; \<open>better_transform\<close> is
  \<^verbatim>\<open>BetterTransformer.transform\<close>; \<open>type_name\<close> is \<^verbatim>\<open>type(model).__name__\<close>;
  \<open>load_dataset\<close> is \<^verbatim>\<open>load_dataset("csv", data_files={"score": mini_batch})\<close> and
  \<open>text_column\<close> is \<^verbatim>\<open>ds["score"]["text"]\<close>; \<open>generate\<close> is
  \<^verbatim>\<open>model.generate(input_ids.to(device), ...)\<close>. \<open>log_metric\<close> takes the metric's name only:
  its value is computed from the wall clock and reaches nothing but mlflow.
\<close>

record ('tok, 'model, 'ds, 'ids) text_libs = host +
  text_cuda_is_available :: bool
  cuda_report :: "error + unit"
  tokenizer_from_pretrained :: "path \<Rightarrow> error + 'tok"
  model_from_pretrained :: "path \<Rightarrow> bool \<Rightarrow> error + 'model"
  better_transform :: "'model \<Rightarrow> error + 'model"
  type_name :: "'model \<Rightarrow> string"
  log_param :: "string \<Rightarrow> string \<Rightarrow> error + unit"
  load_dataset :: "path list \<Rightarrow> error + 'ds"
  text_column :: "'ds \<Rightarrow> error + string list"
  batch_encode_plus :: "'tok \<Rightarrow> string \<Rightarrow> error + 'ids"
  generate :: "'model \<Rightarrow> string \<Rightarrow> 'ids \<Rightarrow> error + 'ids"
  batch_decode :: "'tok \<Rightarrow> 'ids \<Rightarrow> error + string list"
  log_metric :: "string \<Rightarrow> error + unit"

record ('tok, 'model) text_state =
  bart_model :: 'model
  bart_tokenizer :: 'tok
  bart_device :: string

text \<open>
  The \<^verbatim>\<open>try\<close> / \<^verbatim>\<open>except Exception\<close> around the model load: a failed load with
  \<^verbatim>\<open>device_map="auto"\<close> is followed by a plain load, and \<^verbatim>\<open>device\<close> becomes
  \<^verbatim>\<open>"cpu"\<close>.
\<close>

definition load_bart ::
  "('tok, 'model, 'ds, 'ids) text_libs \<Rightarrow> path \<Rightarrow> string \<Rightarrow> error + 'model \<times> string" where
  "load_bart L model_path device =
     (case model_from_pretrained L model_path True of
        Inr m \<Rightarrow> Inr (m, device)
      | Inl e \<Rightarrow>
          (case model_from_pretrained L model_path False of
             Inl e' \<Rightarrow> Inl e'
           | Inr m \<Rightarrow> Inr (m, ''cpu'')))"

text \<open>
  The second \<^verbatim>\<open>try\<close> / \<^verbatim>\<open>except Exception\<close>: off the CPU the model is transformed, and
  stays as it was when the transformation raises.
\<close>

definition optimize_bart ::
  "('tok, 'model, 'ds, 'ids) text_libs \<Rightarrow> 'model \<Rightarrow> string \<Rightarrow> 'model" where
  "optimize_bart L m device =
     (if device \<noteq> ''cpu''
      then (case better_transform L m of Inl e \<Rightarrow> m | Inr m' \<Rightarrow> m')
      else m)"

definition init_text ::
  "('tok, 'model, 'ds, 'ids) text_libs \<Rightarrow> error + ('tok, 'model) text_state" where
  "init_text L =
     (let cuda_available = text_cuda_is_available L;
          device = (if cuda_available then ''cuda'' else ''cpu'')
      in
     (case (if cuda_available then cuda_report L else Inr ()) of
        Inl e \<Rightarrow> Inl e
      | Inr _ \<Rightarrow>
     (case getenv L ''AZUREML_MODEL_DIR'' of
        Inl e \<Rightarrow> Inl e
      | Inr dir \<Rightarrow>
     (case tokenizer_from_pretrained L (path_join dir ''model'') of
        Inl e \<Rightarrow> Inl e
      | Inr tok \<Rightarrow>
     (case load_bart L (path_join dir ''model'') device of
        Inl e \<Rightarrow> Inl e
      | Inr (m, device') \<Rightarrow>
          (let m' = optimize_bart L m device' in
     (case log_param L ''device'' device' of
        Inl e \<Rightarrow> Inl e
      | Inr _ \<Rightarrow>
     (case log_param L ''model'' (type_name L m') of
        Inl e \<Rightarrow> Inl e
      | Inr _ \<Rightarrow>
          Inr \<lparr>bart_model = m', bart_tokenizer = tok, bart_device = device'\<rparr>))))))))"

text \<open>The body of the loop over the rows, up to \<^verbatim>\<open>summaries[0]\<close>.\<close>

definition summarize ::
  "('tok, 'model, 'ds, 'ids) text_libs \<Rightarrow> ('tok, 'model) text_state \<Rightarrow> string \<Rightarrow> error + string"
where
  "summarize L st text =
     (case batch_encode_plus L (bart_tokenizer st) text of
        Inl e \<Rightarrow> Inl e
      | Inr input_ids \<Rightarrow>
     (case generate L (bart_model st) (bart_device st) input_ids of
        Inl e \<Rightarrow> Inl e
      | Inr summary_ids \<Rightarrow>
     (case batch_decode L (bart_tokenizer st) summary_ids of
        Inl e \<Rightarrow> Inl e
      | Inr summaries \<Rightarrow>
          (case summaries of [] \<Rightarrow> Inl IndexError | s # rest \<Rightarrow> Inr s))))"

text \<open>
  \<^verbatim>\<open>ds = load_dataset(...)\<close> and \<^verbatim>\<open>ds["score"]["text"]\<close>: the rows of the mini-batch's
  files.

  The local \<^verbatim>\<open>rps\<close> is assigned only in the loop's body. After a loop of no iterations
  \<^verbatim>\<open>mlflow.log_metric("rows_per_second", rps)\<close> reads a local that was never bound.
\<close>

definition read_texts :: "('tok, 'model, 'ds, 'ids) text_libs \<Rightarrow> path list \<Rightarrow> error + string list"
where
  "read_texts L mini_batch =
     (case load_dataset L mini_batch of
        Inl e \<Rightarrow> Inl e
      | Inr ds \<Rightarrow> text_column L ds)"

definition run_text ::
  "('tok, 'model, 'ds, 'ids) text_libs \<Rightarrow> ('tok, 'model) text_state \<Rightarrow> path list
     \<Rightarrow> error + string list" where
  "run_text L st mini_batch =
     (case read_texts L mini_batch of
        Inl e \<Rightarrow> Inl e
      | Inr texts \<Rightarrow>
     (case for_each (summarize L st) texts of
        Inl e \<Rightarrow> Inl e
      | Inr resultList \<Rightarrow>
          (if texts = [] then Inl (UnboundLocalError ''rps'')
           else (case log_metric L ''rows_per_second'' of
                   Inl e \<Rightarrow> Inl e
                 | Inr _ \<Rightarrow> Inr resultList))))"

section \<open>The driver that writes its own parquet outputs\<close>

text \<open>
  A \<^verbatim>\<open>pd.DataFrame\<close> is the list of its columns in order, each a name and its cells.
  The files the driver reads and writes are one store, from paths to contents; \<open>written\<close> is
  the trace of the \<^verbatim>\<open>to_parquet\<close> calls that succeeded (path and contents), the latest
  last.
\<close>

datatype cell = Cell string | NaN

type_synonym dataframe = "(string \<times> cell list) list"

type_synonym bytes = string

record store =
  files :: "path \<rightharpoonup> bytes"
  written :: "(path \<times> bytes) list"

definition nrows :: "dataframe \<Rightarrow> nat" where
  "nrows df = (case df of [] \<Rightarrow> 0 | (n, c) # rest \<Rightarrow> length c)"

text \<open>
  \<^verbatim>\<open>data[key] = vals\<close> for an array \<open>vals\<close>. A frame with no rows takes its index from a
  non-empty \<open>vals\<close>, its other columns filled with NaN; otherwise a length other than the
  frame's raises \<^verbatim>\<open>ValueError\<close>. A column of that name is replaced where it stands, a new
  name is appended as the last column.
\<close>

definition set_column :: "string \<Rightarrow> cell list \<Rightarrow> dataframe \<Rightarrow> error + dataframe" where
  "set_column key vals df =
     (let df1 = (if nrows df = 0 \<and> vals \<noteq> []
                 then map (\<lambda>(n, c). (n, replicate (length vals) NaN)) df
                 else df)
      in if df1 \<noteq> [] \<and> length vals \<noteq> nrows df1 then Inl ValueError
         else if key \<in> set (map fst df1)
         then Inr (map (\<lambda>(n, c). if n = key then (n, vals) else (n, c)) df1)
         else Inr (df1 @ [(key, vals)]))"

text \<open>
  \<open>pickle_load\<close> is \<^verbatim>\<open>open(model_file, "rb")\<close> and \<^verbatim>\<open>pickle.load\<close>; \<open>parse_csv\<close> is
  what \<^verbatim>\<open>pd.read_csv\<close> makes of a file's contents; \<open>xgb_predict\<close> is
  \<^verbatim>\<open>model.predict(data)\<close>; \<open>parquet_bytes\<close> is the parquet encoding of a frame and
  \<open>write_check\<close> the exception, if any, that \<^verbatim>\<open>to_parquet\<close> raises for a path and a frame.
\<close>

record 'model parquet_libs = host +
  pickle_load :: "path \<Rightarrow> error + 'model"
  parse_csv :: "bytes \<Rightarrow> error + dataframe"
  xgb_predict :: "'model \<Rightarrow> dataframe \<Rightarrow> error + cell list"
  parquet_bytes :: "dataframe \<Rightarrow> bytes"
  write_check :: "path \<Rightarrow> dataframe \<Rightarrow> error option"

record 'model parquet_state =
  xgb_model :: 'model
  output_path :: path

definition init_parquet :: "'model parquet_libs \<Rightarrow> error + 'model parquet_state" where
  "init_parquet L =
     (case getenv L ''AZUREML_BI_OUTPUT_PATH'' of
        Inl e \<Rightarrow> Inl e
      | Inr out \<Rightarrow>
     (case getenv L ''AZUREML_MODEL_DIR'' of
        Inl e \<Rightarrow> Inl e
      | Inr model_path \<Rightarrow>
     (case glob_last L (model_path @ ''/*/*.pkl'') of
        Inl e \<Rightarrow> Inl e
      | Inr model_file \<Rightarrow>
     (case pickle_load L model_file of
        Inl e \<Rightarrow> Inl e
      | Inr m \<Rightarrow> Inr \<lparr>xgb_model = m, output_path = out\<rparr>))))"

text \<open>\<^verbatim>\<open>pd.read_csv(file_path)\<close>\<close>

definition read_csv :: "'model parquet_libs \<Rightarrow> (path \<rightharpoonup> bytes) \<Rightarrow> path \<Rightarrow> error + dataframe" where
  "read_csv L fs file_path =
     (case fs file_path of
        None \<Rightarrow> Inl (FileNotFoundError file_path)
      | Some b \<Rightarrow> parse_csv L b)"

text \<open>
  \<^verbatim>\<open>data.to_parquet(output_file_path)\<close>: the file is created or replaced. A write that
  raises leaves the store as it was.
\<close>

definition to_parquet ::
  "'model parquet_libs \<Rightarrow> dataframe \<Rightarrow> path \<Rightarrow> store \<Rightarrow> (error + unit) \<times> store" where
  "to_parquet L df p s =
     (case write_check L p df of
        Some e \<Rightarrow> (Inl e, s)
      | None \<Rightarrow>
          (Inr (), s\<lparr>files := (files s)(p \<mapsto> parquet_bytes L df),
                      written := written s @ [(p, parquet_bytes L df)]\<rparr>))"

text \<open>
  \<^verbatim>\<open>os.path.join(output_path, Path(file_path).stem + ".parquet")\<close>
\<close>

definition output_file_path :: "'model parquet_state \<Rightarrow> path \<Rightarrow> path" where
  "output_file_path st file_path = path_join (output_path st) (stem file_path @ ''.parquet'')"

text \<open>The frame an item's file is turned into: read, predict, set the column.\<close>

definition scored_frame ::
  "'model parquet_libs \<Rightarrow> 'model parquet_state \<Rightarrow> (path \<rightharpoonup> bytes) \<Rightarrow> path
     \<Rightarrow> error + dataframe" where
  "scored_frame L st fs file_path =
     (case read_csv L fs file_path of
        Inl e \<Rightarrow> Inl e
      | Inr data \<Rightarrow>
     (case xgb_predict L (xgb_model st) data of
        Inl e \<Rightarrow> Inl e
      | Inr pred \<Rightarrow> set_column ''prediction'' pred data))"

text \<open>The body of the \<^verbatim>\<open>for file_path in mini_batch\<close> loop.\<close>

definition score_parquet ::
  "'model parquet_libs \<Rightarrow> 'model parquet_state \<Rightarrow> path \<Rightarrow> store \<Rightarrow> (error + unit) \<times> store"
where
  "score_parquet L st file_path s =
     (case scored_frame L st (files s) file_path of
        Inl e \<Rightarrow> (Inl e, s)
      | Inr data \<Rightarrow> to_parquet L data (output_file_path st file_path) s)"

text \<open>A \<^verbatim>\<open>for\<close> loop whose body acts on the store; the first exception leaves it.\<close>

fun for_each_st ::
  "('a \<Rightarrow> 's \<Rightarrow> (error + unit) \<times> 's) \<Rightarrow> 'a list \<Rightarrow> 's \<Rightarrow> (error + unit) \<times> 's" where
  "for_each_st f [] s = (Inr (), s)"
| "for_each_st f (x # xs) s =
     (case f x s of
        (Inl e, s') \<Rightarrow> (Inl e, s')
      | (Inr u, s') \<Rightarrow> for_each_st f xs s')"

definition run_parquet ::
  "'model parquet_libs \<Rightarrow> 'model parquet_state \<Rightarrow> path list \<Rightarrow> store
     \<Rightarrow> (error + path list) \<times> store" where
  "run_parquet L st mini_batch s =
     (case for_each_st (score_parquet L st) mini_batch s of
        (Inl e, s') \<Rightarrow> (Inl e, s')
      | (Inr u, s') \<Rightarrow> (Inr mini_batch, s'))"

subsection \<open>What one item contributes\<close>

text \<open>
  The artifact an item yields when the files are \<open>fs\<close>: the path and contents that the
  loop's body writes for it, or the exception the body raises. This is the loop's body
  without its effect on the store (lemma \<open>score_parquet_artifact\<close>).
\<close>

definition artifact ::
  "'model parquet_libs \<Rightarrow> 'model parquet_state \<Rightarrow> (path \<rightharpoonup> bytes) \<Rightarrow> path
     \<Rightarrow> error + path \<times> bytes" where
  "artifact L st fs file_path =
     (case scored_frame L st fs file_path of
        Inl e \<Rightarrow> Inl e
      | Inr data \<Rightarrow>
          (case write_check L (output_file_path st file_path) data of
             Some e \<Rightarrow> Inl e
           | None \<Rightarrow> Inr (output_file_path st file_path, parquet_bytes L data)))"

text \<open>
  No output path of the mini-batch is one of its input paths: the driver does not overwrite
  a file it has still to read.
\<close>

definition outputs_apart :: "'model parquet_state \<Rightarrow> path list \<Rightarrow> bool" where
  "outputs_apart st mini_batch =
     list_all (\<lambda>p. output_file_path st p \<notin> set mini_batch) mini_batch"

section \<open>Concrete workers\<close>

text \<open>
  One worker of each driver, with library functions small enough to evaluate; the theorems
  below are instantiated on them.
\<close>

definition example_torch_libs :: "(string, string, string) torch_libs" where
  "example_torch_libs =
     \<lparr>environ = [''AZUREML_MODEL_DIR'' \<mapsto> ''/var/model''],
      glob = (\<lambda>pat. if pat = ''/var/model/*/*.pt'' then [''/var/model/mnist/model.pt''] else []),
      torch_load = (\<lambda>p. if p = ''/var/model/mnist/model.pt'' then Inr ''weights''
                         else Inl (FileNotFoundError p)),
      load_state_dict = (\<lambda>sd. if sd = ''weights'' then Inr ''mnist''
                              else Inl (LibraryError ''Missing key(s) in state_dict'')),
      cuda_is_available = False,
      read_image = (\<lambda>p. if p = ''a.png'' \<or> p = ''b.png'' \<or> p = ''x/c.png'' \<or> p = ''y/c.png''
                         then Inr p else Inl (FileNotFoundError p)),
      forward = (\<lambda>m d img. if img = ''a.png'' then Inr [0, 1, 3] else Inr [2, 0, 0])\<rparr>"

definition example_torch_state :: "string torch_state" where
  "example_torch_state = \<lparr>torch_model = ''mnist'', torch_device = Cpu\<rparr>"

text \<open>
  The same torch libraries on a host with a CUDA device. The model stays where
  \<^verbatim>\<open>load_state_dict\<close> put it, on the CPU, so applying it to an input moved to
  \<^verbatim>\<open>cuda:0\<close> raises.
\<close>

definition example_cuda_libs :: "(string, string, string) torch_libs" where
  "example_cuda_libs =
     example_torch_libs
       \<lparr>cuda_is_available := True,
        forward := (\<lambda>m d img.
          if d = Cuda0
          then Inl (LibraryError
            ''Input type (torch.cuda.FloatTensor) and weight type (torch.FloatTensor) should be the same'')
          else forward example_torch_libs m d img)\<rparr>"

definition example_keras_libs :: "(string, string) keras_libs" where
  "example_keras_libs =
     \<lparr>environ = [''AZUREML_MODEL_DIR'' \<mapsto> ''/var/model''],
      glob = (\<lambda>pat. []),
      load_model = (\<lambda>p. if p = ''/var/model/model'' then Inr ''resnet''
                         else Inl (FileNotFoundError p)),
      open_image = (\<lambda>p. if p = ''a.png'' \<or> p = ''b.png'' \<or> p = ''x/c.png'' \<or> p = ''y/c.png''
                         then Inr p else Inl (FileNotFoundError p)),
      keras_predict = (\<lambda>m img. if img = ''a.png'' then Inr [0, 1, 3] else Inr [2, 0, 0])\<rparr>"

definition example_keras_state :: "string keras_state" where
  "example_keras_state = \<lparr>keras_model = ''resnet''\<rparr>"

text \<open>
  A text worker whose accelerated model load fails; its files are \<^verbatim>\<open>bills.csv\<close> with
  two rows, \<^verbatim>\<open>one.csv\<close> with one row and \<^verbatim>\<open>header.csv\<close> with none.
\<close>

definition example_text_libs :: "(string, string, string list, string) text_libs" where
  "example_text_libs =
     \<lparr>environ = [''AZUREML_MODEL_DIR'' \<mapsto> ''/var/model''],
      glob = (\<lambda>pat. []),
      text_cuda_is_available = False,
      cuda_report = Inr (),
      tokenizer_from_pretrained = (\<lambda>p. if p = ''/var/model/model'' then Inr ''tokenizer''
                                        else Inl (FileNotFoundError p)),
      model_from_pretrained = (\<lambda>p auto.
         if auto then Inl (LibraryError ''device_map requires accelerate'')
         else if p = ''/var/model/model'' then Inr ''bart'' else Inl (FileNotFoundError p)),
      better_transform = (\<lambda>m. Inr m),
      type_name = (\<lambda>m. ''BartForConditionalGeneration''),
      log_param = (\<lambda>k v. Inr ()),
      load_dataset = (\<lambda>fs.
         if fs = [''bills.csv''] then Inr [''first bill'', ''second bill'']
         else if fs = [''one.csv''] then Inr [''third bill'']
         else if fs = [''bills.csv'', ''one.csv'']
         then Inr [''first bill'', ''second bill'', ''third bill'']
         else if fs = [''header.csv''] \<or> fs = [] then Inr []
         else Inl (FileNotFoundError (concat fs))),
      text_column = (\<lambda>ds. Inr ds),
      batch_encode_plus = (\<lambda>tok text. Inr text),
      generate = (\<lambda>m dev ids. Inr (take 5 ids)),
      batch_decode = (\<lambda>tok ids. Inr [ids]),
      log_metric = (\<lambda>name. Inr ())\<rparr>"

definition example_text_state :: "(string, string) text_state" where
  "example_text_state =
     \<lparr>bart_model = ''bart'', bart_tokenizer = ''tokenizer'', bart_device = ''cpu''\<rparr>"

fun show_cell :: "cell \<Rightarrow> string" where
  "show_cell (Cell v) = v"
| "show_cell NaN = ''nan''"

definition example_encode :: "dataframe \<Rightarrow> bytes" where
  "example_encode df =
     ''PAR1'' @ concat (map (\<lambda>(n, c). n @ ''='' @ concat (map (\<lambda>x. show_cell x @ '','') c) @ '';'') df)"

definition example_parquet_libs :: "string parquet_libs" where
  "example_parquet_libs =
     \<lparr>environ = [''AZUREML_BI_OUTPUT_PATH'' \<mapsto> ''/out'', ''AZUREML_MODEL_DIR'' \<mapsto> ''/var/model''],
      glob = (\<lambda>pat. if pat = ''/var/model/*/*.pkl'' then [''/var/model/heart/model.pkl''] else []),
      pickle_load = (\<lambda>p. if p = ''/var/model/heart/model.pkl'' then Inr ''xgb''
                          else Inl (FileNotFoundError p)),
      parse_csv = (\<lambda>b.
         if b = ''age\<newline>63\<newline>'' then Inr [(''age'', [Cell ''63''])]
         else if b = ''age\<newline>41\<newline>'' then Inr [(''age'', [Cell ''41''])]
         else if b = ''age,prediction\<newline>63,7\<newline>''
         then Inr [(''age'', [Cell ''63'']), (''prediction'', [Cell ''7''])]
         else Inl (LibraryError ''ParserError'')),
      xgb_predict = (\<lambda>m df. Inr (replicate (nrows df) (Cell ''1''))),
      parquet_bytes = example_encode,
      write_check = (\<lambda>p df. None)\<rparr>"

definition example_parquet_state :: "string parquet_state" where
  "example_parquet_state = \<lparr>xgb_model = ''xgb'', output_path = ''/out''\<rparr>"

definition example_store :: store where
  "example_store =
     \<lparr>files = [''/in/a.csv'' \<mapsto> ''age\<newline>63\<newline>'', ''/in/b.csv'' \<mapsto> ''age\<newline>41\<newline>'',
               ''/in/x/a.csv'' \<mapsto> ''age\<newline>41\<newline>'', ''/in/p.csv'' \<mapsto> ''age,prediction\<newline>63,7\<newline>''],
      written = []\<rparr>"

section \<open>Facts about paths\<close>

lemma rfind_absent: "c \<notin> set s \<Longrightarrow> rfind s c = - 1"
  by (induction s) (auto simp: Let_def)

lemma rfind_append_sep: "c \<notin> set t \<Longrightarrow> rfind (d @ c # t) c = int (length d)"
  by (induction d) (auto simp: Let_def rfind_absent)

lemma basename_dir:
  assumes "CHR ''/'' \<notin> set name"
  shows "basename (d @ ''/'' @ name) = name"
proof -
  have "rfind (d @ ''/'' @ name) CHR ''/'' = int (length d)"
    using assms rfind_append_sep [of "CHR ''/''" name d] by simp
  moreover have "nat (int (length d) + 1) = Suc (length d)" by simp
  ultimately show ?thesis by (simp add: basename_def)
qed

section \<open>Facts about the loops\<close>

lemma for_each_Inr_iff:
  "for_each f xs = Inr ys \<longleftrightarrow> list_all2 (\<lambda>x y. f x = Inr y) xs ys"
proof (induction xs arbitrary: ys)
  case Nil
  then show ?case by auto
next
  case (Cons x xs)
  show ?case
  proof (cases "f x")
    case (Inl e)
    then show ?thesis by (auto simp: list_all2_Cons1)
  next
    case (Inr y)
    then show ?thesis
      using Cons.IH by (cases "for_each f xs") (auto simp: list_all2_Cons1)
  qed
qed

lemma for_each_length: "for_each f xs = Inr ys \<Longrightarrow> length ys = length xs"
  by (simp add: for_each_Inr_iff list_all2_lengthD)

lemma for_each_nth:
  "for_each f xs = Inr ys \<Longrightarrow> i < length xs \<Longrightarrow> f (xs ! i) = Inr (ys ! i)"
  using list_all2_nthD [of "\<lambda>x y. f x = Inr y" xs ys i] by (simp add: for_each_Inr_iff)

lemma for_each_total:
  "(\<And>x. x \<in> set xs \<Longrightarrow> \<exists>y. f x = Inr y) \<Longrightarrow> \<exists>ys. for_each f xs = Inr ys"
proof (induction xs)
  case Nil
  then show ?case by simp
next
  case (Cons x xs)
  then obtain y where y: "f x = Inr y" by fastforce
  from Cons obtain ys where "for_each f xs = Inr ys" by fastforce
  with y show ?case by simp
qed




section \<open>Facts about softmax and the maximum\<close>

lemma exp_le_sum_exp: "x \<in> set xs \<Longrightarrow> exp x \<le> sum_list (map exp xs)" for x :: real
proof (induction xs)
  case Nil
  then show ?case by simp
next
  case (Cons a xs)
  have unfold: "sum_list (map exp (a # xs)) = exp a + sum_list (map exp xs)" by simp
  have pos: "0 \<le> sum_list (map exp xs)" by (rule sum_list_nonneg) auto
  show ?case
  proof (cases "x = a")
    case True
    with pos show ?thesis by simp
  next
    case False
    with Cons have "exp x \<le> sum_list (map exp xs)" by simp
    with unfold exp_ge_zero [of a] show ?thesis by linarith
  qed
qed

lemma softmax_length: "length (softmax xs) = length xs"
  by (simp add: softmax_def)

lemma softmax_range:
  assumes "p \<in> set (softmax xs)"
  shows "0 \<le> p \<and> p \<le> 1"
proof -
  from assms obtain x where x: "x \<in> set xs" and p: "p = exp x / sum_list (map exp xs)"
    by (auto simp: softmax_def)
  have le: "exp x \<le> sum_list (map exp xs)" using x by (rule exp_le_sum_exp)
  have "0 < exp x" by simp
  with le have pos: "0 < sum_list (map exp xs)" by linarith
  from pos le show ?thesis unfolding p by simp
qed

lemma max_from_ge:
  "best \<le> fst (max_from best bi i xs) \<and> (\<forall>y\<in>set xs. y \<le> fst (max_from best bi i xs))"
proof (induction xs arbitrary: best bi i)
  case Nil
  then show ?case by simp
next
  case (Cons x xs)
  show ?case
  proof (cases "best < x")
    case True
    with Cons.IH [of x i "Suc i"] show ?thesis by auto
  next
    case False
    with Cons.IH [of best bi "Suc i"] show ?thesis by auto
  qed
qed

lemma max_from_fst_mem: "fst (max_from best bi i xs) \<in> insert best (set xs)"
  by (induction xs arbitrary: best bi i) (auto split: if_splits)

lemma max_from_snd: "bi < i \<Longrightarrow> snd (max_from best bi i xs) < i + length xs"
proof (induction xs arbitrary: best bi i)
  case Nil
  then show ?case by simp
next
  case (Cons x xs)
  from Cons.IH [of i "Suc i" x] Cons.IH [of bi "Suc i" best] Cons.prems
  show ?case by (auto split: if_splits)
qed

lemma max_from_fst: "fst (max_from best bi i xs) = Max (insert best (set xs))"
proof (rule sym, rule Max_eqI)
  show "finite (insert best (set xs))" by simp
  show "fst (max_from best bi i xs) \<in> insert best (set xs)" by (rule max_from_fst_mem)
  fix y assume "y \<in> insert best (set xs)"
  then show "y \<le> fst (max_from best bi i xs)" using max_from_ge [of best bi i xs] by auto
qed

lemma max_from_nth:
  "bi < i \<Longrightarrow> i + length xs = length full \<Longrightarrow> drop i full = xs \<Longrightarrow> full ! bi = best
   \<Longrightarrow> full ! snd (max_from best bi i xs) = fst (max_from best bi i xs)"
proof (induction xs arbitrary: best bi i)
  case Nil
  then show ?case by simp
next
  case (Cons x xs)
  have i: "i < length full" using Cons.prems by simp
  have x: "full ! i = x" using Cons.prems i by (metis nth_via_drop)
  have d: "drop (Suc i) full = xs" using Cons.prems by (metis drop_Suc tl_drop list.sel(3))
  show ?case
    using Cons.IH [of i "Suc i" x] Cons.IH [of bi "Suc i" best] Cons.prems x d
    by (auto split: if_splits)
qed

lemma torch_max_Inr:
  assumes "xs \<noteq> []"
  shows "\<exists>v k. torch_max xs = Inr (v, k) \<and> v = Max (set xs) \<and> k < length xs \<and> xs ! k = v"
proof -
  from assms obtain x r where xs: "xs = x # r" by (cases xs) auto
  have "snd (max_from x 0 1 r) < 1 + length r" by (rule max_from_snd) simp
  moreover have "(x # r) ! snd (max_from x 0 1 r) = fst (max_from x 0 1 r)"
    by (rule max_from_nth) simp_all
  moreover have "fst (max_from x 0 1 r) = Max (insert x (set r))" by (rule max_from_fst)
  ultimately show ?thesis
    unfolding xs by (simp add: torch_max_def) (metis prod.collapse)
qed

section \<open>Facts about the image drivers\<close>

lemma softmax_Nil_iff: "softmax xs = [] \<longleftrightarrow> xs = []"
  by (simp add: softmax_def)

lemma score_torch_Inr_iff:
  "score_torch L st p = Inr r \<longleftrightarrow>
     (\<exists>logits v k. torch_logits L st p = Inr logits \<and> torch_max (softmax logits) = Inr (v, k) \<and>
        torch_device st = Cpu \<and>
        r = \<lparr>pred_file = basename p, pred_class = k, pred_probability = v\<rparr>)"
  by (auto simp: score_torch_def numpy_def split: sum.splits prod.splits if_splits)

lemma score_torch_valid:
  assumes "torch_device st = Cpu" and "torch_logits L st p = Inr logits" and "logits \<noteq> []"
  shows "\<exists>r. score_torch L st p = Inr r \<and> pred_file r = basename p \<and>
           pred_probability r = Max (set (softmax logits)) \<and>
           pred_class r < length logits \<and> softmax logits ! pred_class r = pred_probability r"
proof -
  from assms(3) have "softmax logits \<noteq> []" by (simp add: softmax_Nil_iff)
  from torch_max_Inr [OF this] obtain v k where
    m: "torch_max (softmax logits) = Inr (v, k)" and v: "v = Max (set (softmax logits))"
    and k: "k < length (softmax logits)" and n: "softmax logits ! k = v" by blast
  have "score_torch L st p = Inr \<lparr>pred_file = basename p, pred_class = k, pred_probability = v\<rparr>"
    using assms(1,2) m by (simp add: score_torch_Inr_iff)
  with v k n show ?thesis by (simp add: softmax_length)
qed

lemma score_torch_file: "score_torch L st p = Inr r \<Longrightarrow> pred_file r = basename p"
  by (auto simp: score_torch_Inr_iff)

lemma tf_argmax_Inr:
  assumes "xs \<noteq> []"
  shows "\<exists>k. tf_argmax xs = Inr k \<and> k < length xs \<and> xs ! k = Max (set xs)"
proof -
  from torch_max_Inr [OF assms] obtain v k where
    "torch_max xs = Inr (v, k)" "v = Max (set xs)" "k < length xs" "xs ! k = v" by blast
  then show ?thesis using assms by (cases xs) (auto simp: tf_argmax_def torch_max_def)
qed

lemma reduce_max_Max: "xs \<noteq> [] \<Longrightarrow> reduce_max xs = Max (set xs)"
  by (cases xs) (simp_all add: reduce_max_def max_from_fst)

lemma score_keras_Inr_iff:
  "score_keras L st p = Inr r \<longleftrightarrow>
     (\<exists>pred k. keras_logits L st p = Inr pred \<and> tf_argmax pred = Inr k \<and>
        r = \<lparr>pred_file = basename p, pred_class = k,
             pred_probability = reduce_max (softmax pred)\<rparr>)"
  by (auto simp: score_keras_def Let_def split: sum.splits)

lemma score_keras_valid:
  assumes "keras_logits L st p = Inr pred" and "pred \<noteq> []"
  shows "\<exists>r. score_keras L st p = Inr r \<and> pred_file r = basename p \<and>
           pred_probability r = Max (set (softmax pred)) \<and>
           pred_class r < length pred \<and> pred ! pred_class r = Max (set pred)"
proof -
  from tf_argmax_Inr [OF assms(2)] obtain k where
    k: "tf_argmax pred = Inr k" "k < length pred" "pred ! k = Max (set pred)" by blast
  have "softmax pred \<noteq> []" using assms(2) by (simp add: softmax_Nil_iff)
  then have "reduce_max (softmax pred) = Max (set (softmax pred))" by (rule reduce_max_Max)
  with assms(1) k show ?thesis by (simp add: score_keras_Inr_iff)
qed

lemma score_keras_file: "score_keras L st p = Inr r \<Longrightarrow> pred_file r = basename p"
  by (auto simp: score_keras_Inr_iff)

lemma Max_softmax_range: "xs \<noteq> [] \<Longrightarrow> 0 \<le> Max (set (softmax xs)) \<and> Max (set (softmax xs)) \<le> 1"
proof -
  assume "xs \<noteq> []"
  then have "set (softmax xs) \<noteq> {}" by (simp add: softmax_Nil_iff)
  then have "Max (set (softmax xs)) \<in> set (softmax xs)" by (simp add: Max_in)
  then show ?thesis by (rule softmax_range)
qed

lemma score_torch_record:
  assumes "score_torch L st p = Inr r"
  shows "\<exists>logits. torch_logits L st p = Inr logits \<and> logits \<noteq> [] \<and>
           pred_file r = basename p \<and> pred_probability r = Max (set (softmax logits)) \<and>
           pred_class r < length logits"
proof -
  from assms obtain logits v k where l: "torch_logits L st p = Inr logits"
    and m: "torch_max (softmax logits) = Inr (v, k)" and dev: "torch_device st = Cpu"
    unfolding score_torch_Inr_iff by blast
  from m have ne: "logits \<noteq> []" by (auto simp: torch_max_def softmax_def)
  from score_torch_valid [OF dev l ne] assms l ne show ?thesis by auto
qed

lemma score_keras_record:
  assumes "score_keras K st p = Inr r"
  shows "\<exists>pred. keras_logits K st p = Inr pred \<and> pred \<noteq> [] \<and>
           pred_file r = basename p \<and> pred_probability r = Max (set (softmax pred)) \<and>
           pred_class r < length pred"
proof -
  from assms obtain pred k where l: "keras_logits K st p = Inr pred"
    and m: "tf_argmax pred = Inr k"
    unfolding score_keras_Inr_iff by blast
  from m have ne: "pred \<noteq> []" by (auto simp: tf_argmax_def)
  from score_keras_valid [OF l ne] assms l ne show ?thesis by auto
qed

lemma run_torch_total:
  assumes "torch_device st = Cpu"
    and "\<forall>p\<in>set mb. \<exists>logits. torch_logits L st p = Inr logits \<and> logits \<noteq> []"
  shows "\<exists>rs. run_torch L st mb = Inr rs \<and> length rs = length mb"
proof -
  have "\<exists>r. score_torch L st p = Inr r" if "p \<in> set mb" for p
    using assms that score_torch_valid [of st L p] by blast
  then obtain rs where "for_each (score_torch L st) mb = Inr rs"
    using for_each_total [of mb "score_torch L st"] by blast
  then show ?thesis using for_each_length [of "score_torch L st" mb rs] by (simp add: run_torch_def)
qed

lemma run_keras_total:
  assumes "\<forall>p\<in>set mb. \<exists>pred. keras_logits K st p = Inr pred \<and> pred \<noteq> []"
  shows "\<exists>rs. run_keras K st mb = Inr rs \<and> length rs = length mb"
proof -
  have "\<exists>r. score_keras K st p = Inr r" if "p \<in> set mb" for p
    using assms that score_keras_valid [of K st p] by blast
  then obtain rs where "for_each (score_keras K st) mb = Inr rs"
    using for_each_total [of mb "score_keras K st"] by blast
  then show ?thesis using for_each_length [of "score_keras K st" mb rs] by (simp add: run_keras_def)
qed

text \<open>
  On a CUDA device the torch driver returns no record: the worker's device is
  \<^verbatim>\<open>cuda:0\<close> whenever CUDA is available, and the conversion to numpy then raises for
  every item that got as far.
\<close>

lemma score_torch_cuda: "torch_device st = Cuda0 \<Longrightarrow> \<exists>e. score_torch L st p = Inl e"
  by (cases "score_torch L st p") (auto simp: score_torch_Inr_iff)

lemma run_torch_cuda:
  assumes "torch_device st = Cuda0" and "mb \<noteq> []"
  shows "\<exists>e. run_torch L st mb = Inl e"
proof -
  from assms(2) obtain p ps where mb: "mb = p # ps" by (cases mb) auto
  from score_torch_cuda [OF assms(1)] obtain e where "score_torch L st p = Inl e" ..
  then show ?thesis by (simp add: run_torch_def mb)
qed

lemma init_torch_device:
  "init_torch L = Inr st \<Longrightarrow> torch_device st = (if cuda_is_available L then Cuda0 else Cpu)"
  by (auto simp: init_torch_def split: sum.splits)

section \<open>Records of the image classifiers\<close>

text \<open>
  What the image drivers return when they return, with the entries of the model's output
  taken as reals (finite values, exact arithmetic; a float32 \<^verbatim>\<open>nan\<close> or \<^verbatim>\<open>inf\<close> in the
  output is outside this embedding). Whenever \<open>run\<close> of the torch or of the keras driver
  returns, it returns one record per image of the mini-batch, in order. The record's
  \<open>file\<close> is the basename of the path; its \<open>probability\<close> is the largest entry of the
  softmax of the model's output for that image and lies in \<open>[0, 1]\<close>; its \<open>class\<close> is an
  index into that output. The keras driver does return when the model gives a non-empty
  output for every image of the mini-batch; the torch driver does so only on a worker whose
  device is the CPU.
\<close>

lemma image_driver_records:
  fixes L :: "('img, 'sd, 'model) torch_libs" and K :: "('kimg, 'kmodel) keras_libs"
  shows
    "(run_torch L st mb = Inr rs \<longrightarrow>
        length rs = length mb \<and>
        (\<forall>i<length mb.
           pred_file (rs ! i) = basename (mb ! i) \<and>
           0 \<le> pred_probability (rs ! i) \<and> pred_probability (rs ! i) \<le> 1 \<and>
           (\<exists>logits. torch_logits L st (mb ! i) = Inr logits \<and>
              pred_probability (rs ! i) = Max (set (softmax logits)) \<and>
              pred_class (rs ! i) < length logits))) \<and>
     (torch_device st = Cpu \<and>
      (\<forall>p\<in>set mb. \<exists>logits. torch_logits L st p = Inr logits \<and> logits \<noteq> []) \<longrightarrow>
        (\<exists>rs. run_torch L st mb = Inr rs)) \<and>
     (run_keras K kst kb = Inr ks \<longrightarrow>
        length ks = length kb \<and>
        (\<forall>i<length kb.
           pred_file (ks ! i) = basename (kb ! i) \<and>
           0 \<le> pred_probability (ks ! i) \<and> pred_probability (ks ! i) \<le> 1 \<and>
           (\<exists>pred. keras_logits K kst (kb ! i) = Inr pred \<and>
              pred_probability (ks ! i) = Max (set (softmax pred)) \<and>
              pred_class (ks ! i) < length pred))) \<and>
     ((\<forall>p\<in>set kb. \<exists>pred. keras_logits K kst p = Inr pred \<and> pred \<noteq> []) \<longrightarrow>
        (\<exists>ks. run_keras K kst kb = Inr ks))"
proof (intro conjI impI allI)
  assume run: "run_torch L st mb = Inr rs"
  then have fe: "for_each (score_torch L st) mb = Inr rs" by (simp add: run_torch_def)
  then show "length rs = length mb" by (rule for_each_length)
  fix i assume i: "i < length mb"
  from score_torch_record [OF for_each_nth [OF fe i]] obtain logits where
    l: "torch_logits L st (mb ! i) = Inr logits" "logits \<noteq> []"
       "pred_file (rs ! i) = basename (mb ! i)"
       "pred_probability (rs ! i) = Max (set (softmax logits))"
       "pred_class (rs ! i) < length logits" by blast
  from l(3) show "pred_file (rs ! i) = basename (mb ! i)" .
  from l(4) Max_softmax_range [OF l(2)]
  show "0 \<le> pred_probability (rs ! i)" "pred_probability (rs ! i) \<le> 1" by simp_all
  from l show "\<exists>logits. torch_logits L st (mb ! i) = Inr logits \<and>
      pred_probability (rs ! i) = Max (set (softmax logits)) \<and> pred_class (rs ! i) < length logits"
    by blast
next
  assume "torch_device st = Cpu \<and>
      (\<forall>p\<in>set mb. \<exists>logits. torch_logits L st p = Inr logits \<and> logits \<noteq> [])"
  then show "\<exists>rs. run_torch L st mb = Inr rs" using run_torch_total [of st mb L] by blast
next
  assume run: "run_keras K kst kb = Inr ks"
  then have fe: "for_each (score_keras K kst) kb = Inr ks" by (simp add: run_keras_def)
  then show "length ks = length kb" by (rule for_each_length)
  fix i assume i: "i < length kb"
  from score_keras_record [OF for_each_nth [OF fe i]] obtain pred where
    l: "keras_logits K kst (kb ! i) = Inr pred" "pred \<noteq> []"
       "pred_file (ks ! i) = basename (kb ! i)"
       "pred_probability (ks ! i) = Max (set (softmax pred))"
       "pred_class (ks ! i) < length pred" by blast
  from l(3) show "pred_file (ks ! i) = basename (kb ! i)" .
  from l(4) Max_softmax_range [OF l(2)]
  show "0 \<le> pred_probability (ks ! i)" "pred_probability (ks ! i) \<le> 1" by simp_all
  from l show "\<exists>pred. keras_logits K kst (kb ! i) = Inr pred \<and>
      pred_probability (ks ! i) = Max (set (softmax pred)) \<and> pred_class (ks ! i) < length pred"
    by blast
next
  assume "\<forall>p\<in>set kb. \<exists>pred. keras_logits K kst p = Inr pred \<and> pred \<noteq> []"
  then show "\<exists>ks. run_keras K kst kb = Inr ks" using run_keras_total [of kb K kst] by blast
qed

lemma example_torch_logits:
  "torch_logits example_torch_libs example_torch_state ''a.png'' = Inr [0, 1, 3]"
  "torch_logits example_torch_libs example_torch_state ''b.png'' = Inr [2, 0, 0]"
  "torch_logits example_torch_libs example_torch_state ''x/c.png'' = Inr [2, 0, 0]"
  "torch_logits example_torch_libs example_torch_state ''y/c.png'' = Inr [2, 0, 0]"
  by (simp_all add: torch_logits_def example_torch_libs_def example_torch_state_def)

lemma example_keras_logits:
  "keras_logits example_keras_libs example_keras_state ''a.png'' = Inr [0, 1, 3]"
  "keras_logits example_keras_libs example_keras_state ''b.png'' = Inr [2, 0, 0]"
  "keras_logits example_keras_libs example_keras_state ''x/c.png'' = Inr [2, 0, 0]"
  "keras_logits example_keras_libs example_keras_state ''y/c.png'' = Inr [2, 0, 0]"
  by (simp_all add: keras_logits_def example_keras_libs_def example_keras_state_def)

lemma example_torch_device: "torch_device example_torch_state = Cpu"
  by (simp add: example_torch_state_def)

lemma image_driver_records_example:
  "(\<exists>rs. run_torch example_torch_libs example_torch_state [''a.png'', ''b.png''] = Inr rs \<and>
      length rs = 2 \<and>
      pred_file (rs ! 0) = ''a.png'' \<and> pred_file (rs ! 1) = ''b.png'' \<and>
      0 \<le> pred_probability (rs ! 0) \<and> pred_probability (rs ! 0) \<le> 1 \<and>
      0 \<le> pred_probability (rs ! 1) \<and> pred_probability (rs ! 1) \<le> 1 \<and>
      pred_class (rs ! 0) < 3 \<and> pred_class (rs ! 1) < 3) \<and>
   (\<exists>ks. run_keras example_keras_libs example_keras_state [''a.png'', ''b.png''] = Inr ks \<and>
      length ks = 2 \<and>
      pred_file (ks ! 0) = ''a.png'' \<and> pred_file (ks ! 1) = ''b.png'' \<and>
      0 \<le> pred_probability (ks ! 0) \<and> pred_probability (ks ! 0) \<le> 1 \<and>
      0 \<le> pred_probability (ks ! 1) \<and> pred_probability (ks ! 1) \<le> 1 \<and>
      pred_class (ks ! 0) < 3 \<and> pred_class (ks ! 1) < 3)"
proof -
  have base: "basename ''a.png'' = ''a.png''" "basename ''b.png'' = ''b.png''"
    by (simp_all add: basename_def)
  have "\<exists>rs. run_torch example_torch_libs example_torch_state [''a.png'', ''b.png''] = Inr rs"
    using image_driver_records [where L = example_torch_libs and st = example_torch_state
        and mb = "[''a.png'', ''b.png'']", THEN conjunct2, THEN conjunct1]
    by (simp add: example_torch_logits example_torch_device)
  then obtain rs where
    rs: "run_torch example_torch_libs example_torch_state [''a.png'', ''b.png''] = Inr rs" ..
  have "\<exists>ks. run_keras example_keras_libs example_keras_state [''a.png'', ''b.png''] = Inr ks"
    using image_driver_records [where K = example_keras_libs and kst = example_keras_state
        and kb = "[''a.png'', ''b.png'']", THEN conjunct2, THEN conjunct2, THEN conjunct2]
    by (simp add: example_keras_logits)
  then obtain ks where
    ks: "run_keras example_keras_libs example_keras_state [''a.png'', ''b.png''] = Inr ks" ..
  note inst = image_driver_records [where L = example_torch_libs and st = example_torch_state
      and mb = "[''a.png'', ''b.png'']" and rs = rs and K = example_keras_libs
      and kst = example_keras_state and kb = "[''a.png'', ''b.png'']" and ks = ks]
  from inst rs have t: "length rs = 2"
    "\<forall>i<2. pred_file (rs ! i) = basename ([''a.png'', ''b.png''] ! i) \<and>
       0 \<le> pred_probability (rs ! i) \<and> pred_probability (rs ! i) \<le> 1 \<and>
       (\<exists>logits. torch_logits example_torch_libs example_torch_state ([''a.png'', ''b.png''] ! i)
            = Inr logits \<and>
          pred_probability (rs ! i) = Max (set (softmax logits)) \<and>
          pred_class (rs ! i) < length logits)"
    by simp_all
  from inst ks have k: "length ks = 2"
    "\<forall>i<2. pred_file (ks ! i) = basename ([''a.png'', ''b.png''] ! i) \<and>
       0 \<le> pred_probability (ks ! i) \<and> pred_probability (ks ! i) \<le> 1 \<and>
       (\<exists>pred. keras_logits example_keras_libs example_keras_state ([''a.png'', ''b.png''] ! i)
            = Inr pred \<and>
          pred_probability (ks ! i) = Max (set (softmax pred)) \<and>
          pred_class (ks ! i) < length pred)"
    by simp_all
  from t(2) [THEN spec, of 0] t(2) [THEN spec, of 1]
  have "pred_file (rs ! 0) = ''a.png'' \<and> pred_file (rs ! 1) = ''b.png'' \<and>
      0 \<le> pred_probability (rs ! 0) \<and> pred_probability (rs ! 0) \<le> 1 \<and>
      0 \<le> pred_probability (rs ! 1) \<and> pred_probability (rs ! 1) \<le> 1 \<and>
      pred_class (rs ! 0) < 3 \<and> pred_class (rs ! 1) < 3"
    using base by (auto simp: example_torch_logits)
  moreover from k(2) [THEN spec, of 0] k(2) [THEN spec, of 1]
  have "pred_file (ks ! 0) = ''a.png'' \<and> pred_file (ks ! 1) = ''b.png'' \<and>
      0 \<le> pred_probability (ks ! 0) \<and> pred_probability (ks ! 0) \<le> 1 \<and>
      0 \<le> pred_probability (ks ! 1) \<and> pred_probability (ks ! 1) \<le> 1 \<and>
      pred_class (ks ! 0) < 3 \<and> pred_class (ks ! 1) < 3"
    using base by (auto simp: example_keras_logits)
  ultimately show ?thesis using rs t(1) ks k(1) by blast
qed

section \<open>The torch classifier on a CUDA host\<close>

text \<open>
  C3. For a worker initialized with an image-classifier model and a mini-batch such as
  \<^verbatim>\<open>["a.png", "b.png"]\<close>, \<open>run\<close> is to return one record per image. The torch driver does
  not on a host with a CUDA device: \<open>init\<close> sets the worker's device to \<^verbatim>\<open>cuda:0\<close>
  whenever CUDA is available, and on a worker with that device \<open>run\<close> of any non-empty
  mini-batch raises and returns no record, whatever the libraries do. (The model is never
  moved to the device, and \<^verbatim>\<open>.numpy()\<close> is called on tensors of the device.)
\<close>

theorem torch_classifier_on_cuda:
  fixes L :: "('img, 'sd, 'model) torch_libs"
  shows
    "(init_torch L = Inr st \<and> cuda_is_available L \<longrightarrow> torch_device st = Cuda0) \<and>
     (torch_device st = Cuda0 \<and> mb \<noteq> [] \<longrightarrow> (\<exists>e. run_torch L st mb = Inl e))"
proof (intro conjI impI)
  assume "init_torch L = Inr st \<and> cuda_is_available L"
  then show "torch_device st = Cuda0" using init_torch_device [of L st] by simp
next
  assume "torch_device st = Cuda0 \<and> mb \<noteq> []"
  then show "\<exists>e. run_torch L st mb = Inl e" using run_torch_cuda [of st mb L] by simp
qed

theorem torch_classifier_on_cuda_witness:
  "(\<exists>st. init_torch example_cuda_libs = Inr st \<and> torch_device st = Cuda0 \<and>
      (\<exists>e. run_torch example_cuda_libs st [''a.png'', ''b.png''] = Inl e) \<and>
      run_torch example_cuda_libs st [''a.png'', ''b.png''] =
        Inl (LibraryError
          ''Input type (torch.cuda.FloatTensor) and weight type (torch.FloatTensor) should be the same'')) \<and>
   run_torch (example_torch_libs\<lparr>cuda_is_available := True\<rparr>)
       \<lparr>torch_model = ''mnist'', torch_device = Cuda0\<rparr> [''a.png'', ''b.png''] = Inl TypeError"
proof -
  let ?st = "\<lparr>torch_model = ''mnist'', torch_device = Cuda0\<rparr>"
  have i: "init_torch example_cuda_libs = Inr ?st"
    by (simp add: init_torch_def getenv_def glob_last_def example_cuda_libs_def
        example_torch_libs_def)
  have c: "cuda_is_available example_cuda_libs" by (simp add: example_cuda_libs_def)
  have d: "torch_device ?st = Cuda0"
    using torch_classifier_on_cuda [where L = example_cuda_libs and st = ?st, THEN conjunct1]
      i c by blast
  have e: "\<exists>e. run_torch example_cuda_libs ?st [''a.png'', ''b.png''] = Inl e"
    using torch_classifier_on_cuda [where L = example_cuda_libs and st = ?st
        and mb = "[''a.png'', ''b.png'']", THEN conjunct2] d by simp
  have r: "run_torch example_cuda_libs ?st [''a.png'', ''b.png''] =
      Inl (LibraryError
        ''Input type (torch.cuda.FloatTensor) and weight type (torch.FloatTensor) should be the same'')"
    by (simp add: run_torch_def score_torch_def torch_logits_def example_cuda_libs_def
        example_torch_libs_def)
  have n: "run_torch (example_torch_libs\<lparr>cuda_is_available := True\<rparr>) ?st
      [''a.png'', ''b.png''] = Inl TypeError"
    by (simp add: run_torch_def score_torch_def torch_logits_def example_torch_libs_def
        torch_max_def numpy_def softmax_def split: sum.splits)
  from i d e r n show ?thesis by blast
qed

section \<open>The file column\<close>

lemma for_each_map:
  assumes "for_each f xs = Inr ys" and "\<And>x y. f x = Inr y \<Longrightarrow> g y = h x"
  shows "map g ys = map h xs"
proof (rule nth_equalityI)
  show "length (map g ys) = length (map h xs)" using for_each_length [OF assms(1)] by simp
next
  fix i assume "i < length (map g ys)"
  then have i: "i < length xs" using for_each_length [OF assms(1)] by simp
  from for_each_nth [OF assms(1) i] have "g (ys ! i) = h (xs ! i)" by (rule assms(2))
  with i for_each_length [OF assms(1)] show "map g ys ! i = map h xs ! i" by simp
qed

lemma run_torch_files: "run_torch L st mb = Inr rs \<Longrightarrow> map pred_file rs = map basename mb"
  unfolding run_torch_def by (erule for_each_map) (rule score_torch_file)

lemma run_keras_files: "run_keras L st mb = Inr rs \<Longrightarrow> map pred_file rs = map basename mb"
  unfolding run_keras_def by (erule for_each_map) (rule score_keras_file)

lemma basename_dir_Cons: "CHR ''/'' \<notin> set name \<Longrightarrow> basename (d @ CHR ''/'' # name) = name"
  using basename_dir [of name d] by simp

lemma map_eq_nth: "map g ys = map h xs \<Longrightarrow> i < length xs \<Longrightarrow> g (ys ! i) = h (xs ! i)"
  by (metis length_map nth_map)

text \<open>
  C9. The \<open>file\<close> column of the image drivers holds the basename of each path and nothing of
  its directory: two items \<open>d1/name\<close> and \<open>d2/name\<close>, in one mini-batch or in two, get
  records whose \<open>file\<close> is \<open>name\<close> for both.
\<close>

theorem file_column_drops_directory:
  fixes L :: "('img, 'sd, 'model) torch_libs" and K :: "('kimg, 'kmodel) keras_libs"
  shows
    "(run_torch L st mb = Inr rs \<longrightarrow> map pred_file rs = map basename mb) \<and>
     (run_keras K kst kb = Inr ks \<longrightarrow> map pred_file ks = map basename kb) \<and>
     (CHR ''/'' \<notin> set name \<and>
      run_torch L st mb1 = Inr rs1 \<and> run_torch L st mb2 = Inr rs2 \<and>
      i < length mb1 \<and> j < length mb2 \<and>
      mb1 ! i = d1 @ ''/'' @ name \<and> mb2 ! j = d2 @ ''/'' @ name \<longrightarrow>
      pred_file (rs1 ! i) = name \<and> pred_file (rs2 ! j) = name) \<and>
     (CHR ''/'' \<notin> set name \<and>
      run_keras K kst kb1 = Inr ks1 \<and> run_keras K kst kb2 = Inr ks2 \<and>
      i < length kb1 \<and> j < length kb2 \<and>
      kb1 ! i = d1 @ ''/'' @ name \<and> kb2 ! j = d2 @ ''/'' @ name \<longrightarrow>
      pred_file (ks1 ! i) = name \<and> pred_file (ks2 ! j) = name)"
proof (intro conjI impI)
  assume "run_torch L st mb = Inr rs"
  then show "map pred_file rs = map basename mb" by (rule run_torch_files)
next
  assume "run_keras K kst kb = Inr ks"
  then show "map pred_file ks = map basename kb" by (rule run_keras_files)
next
  assume a: "CHR ''/'' \<notin> set name \<and>
      run_torch L st mb1 = Inr rs1 \<and> run_torch L st mb2 = Inr rs2 \<and>
      i < length mb1 \<and> j < length mb2 \<and>
      mb1 ! i = d1 @ ''/'' @ name \<and> mb2 ! j = d2 @ ''/'' @ name"
  then have "pred_file (rs1 ! i) = basename (mb1 ! i)" "pred_file (rs2 ! j) = basename (mb2 ! j)"
    using map_eq_nth [OF run_torch_files, of L st mb1 rs1 i]
      map_eq_nth [OF run_torch_files, of L st mb2 rs2 j] by blast+
  with a show "pred_file (rs1 ! i) = name" "pred_file (rs2 ! j) = name"
    by (simp_all add: basename_dir_Cons)
next
  assume a: "CHR ''/'' \<notin> set name \<and>
      run_keras K kst kb1 = Inr ks1 \<and> run_keras K kst kb2 = Inr ks2 \<and>
      i < length kb1 \<and> j < length kb2 \<and>
      kb1 ! i = d1 @ ''/'' @ name \<and> kb2 ! j = d2 @ ''/'' @ name"
  then have "pred_file (ks1 ! i) = basename (kb1 ! i)" "pred_file (ks2 ! j) = basename (kb2 ! j)"
    using map_eq_nth [OF run_keras_files, of K kst kb1 ks1 i]
      map_eq_nth [OF run_keras_files, of K kst kb2 ks2 j] by blast+
  with a show "pred_file (ks1 ! i) = name" "pred_file (ks2 ! j) = name"
    by (simp_all add: basename_dir_Cons)
qed

lemma example_run_torch_ok:
  "\<exists>rs. run_torch example_torch_libs example_torch_state [''x/c.png'', ''y/c.png''] = Inr rs"
proof -
  have "\<exists>r. score_torch example_torch_libs example_torch_state p = Inr r"
    if "p \<in> set [''x/c.png'', ''y/c.png'']" for p
  proof -
    from that have "torch_logits example_torch_libs example_torch_state p = Inr [2, 0, 0]"
      by (auto simp: example_torch_logits)
    from score_torch_valid [OF _ this] show ?thesis by (auto simp: example_torch_state_def)
  qed
  then show ?thesis unfolding run_torch_def by (rule for_each_total)
qed

lemma example_run_keras_ok:
  "\<exists>rs. run_keras example_keras_libs example_keras_state [''x/c.png'', ''y/c.png''] = Inr rs"
proof -
  have "\<exists>r. score_keras example_keras_libs example_keras_state p = Inr r"
    if "p \<in> set [''x/c.png'', ''y/c.png'']" for p
  proof -
    from that have "keras_logits example_keras_libs example_keras_state p = Inr [2, 0, 0]"
      by (auto simp: example_keras_logits)
    from score_keras_valid [OF this] show ?thesis by auto
  qed
  then show ?thesis unfolding run_keras_def by (rule for_each_total)
qed

theorem file_column_drops_directory_witness:
  "(\<exists>rs. run_torch example_torch_libs example_torch_state [''x/c.png'', ''y/c.png''] = Inr rs \<and>
      pred_file (rs ! 0) = ''c.png'' \<and> pred_file (rs ! 1) = ''c.png'') \<and>
   (\<exists>ks. run_keras example_keras_libs example_keras_state [''x/c.png'', ''y/c.png''] = Inr ks \<and>
      pred_file (ks ! 0) = ''c.png'' \<and> pred_file (ks ! 1) = ''c.png'')"
proof -
  from example_run_torch_ok obtain rs where
    rs: "run_torch example_torch_libs example_torch_state [''x/c.png'', ''y/c.png''] = Inr rs" ..
  from example_run_keras_ok obtain ks where
    ks: "run_keras example_keras_libs example_keras_state [''x/c.png'', ''y/c.png''] = Inr ks" ..
  note inst = file_column_drops_directory [of example_torch_libs example_torch_state
      "[''x/c.png'', ''y/c.png'']" rs example_keras_libs example_keras_state
      "[''x/c.png'', ''y/c.png'']" ks "''c.png''" "[''x/c.png'', ''y/c.png'']" rs
      "[''x/c.png'', ''y/c.png'']" rs 0 1 "''x''" "''y''"
      "[''x/c.png'', ''y/c.png'']" ks "[''x/c.png'', ''y/c.png'']" ks]
  from inst rs ks have "pred_file (rs ! 0) = ''c.png'' \<and> pred_file (rs ! 1) = ''c.png''"
    and "pred_file (ks ! 0) = ''c.png'' \<and> pred_file (ks ! 1) = ''c.png''"
    by simp_all
  with rs ks show ?thesis by blast
qed

section \<open>The empty mini-batch\<close>

lemma run_text_Inr_iff:
  "run_text L st mb = Inr rs \<longleftrightarrow>
     (\<exists>texts. read_texts L mb = Inr texts \<and> texts \<noteq> [] \<and>
        for_each (summarize L st) texts = Inr rs \<and> log_metric L ''rows_per_second'' = Inr ())"
  by (auto simp: run_text_def split: sum.splits)

lemma run_text_nonempty: "run_text L st mb \<noteq> Inr []"
proof
  assume "run_text L st mb = Inr []"
  then obtain texts where "texts \<noteq> []" "for_each (summarize L st) texts = Inr []"
    unfolding run_text_Inr_iff by blast
  then show False using for_each_length [of "summarize L st" texts "[]"] by simp
qed

text \<open>
  C4. On the empty mini-batch the torch, keras and parquet drivers return an empty result and
  raise nothing (the parquet driver leaves the store as it was). The text driver never does:
  whatever the libraries do, its \<open>run\<close> on \<open>[]\<close> does not return the empty sequence, and when
  the dataset loaded for \<open>[]\<close> has no rows it ends in \<^verbatim>\<open>UnboundLocalError\<close>.
\<close>

theorem empty_mini_batch:
  fixes L :: "('img, 'sd, 'model) torch_libs" and K :: "('kimg, 'kmodel) keras_libs"
    and P :: "'pmodel parquet_libs" and T :: "('tok, 'tmodel, 'ds, 'ids) text_libs"
  shows
    "run_torch L st [] = Inr [] \<and>
     run_keras K kst [] = Inr [] \<and>
     run_parquet P pst [] s = (Inr [], s) \<and>
     run_text T tst [] \<noteq> Inr [] \<and>
     (read_texts T [] = Inr [] \<longrightarrow> run_text T tst [] = Inl (UnboundLocalError ''rps''))"
  by (simp add: run_torch_def run_keras_def run_parquet_def run_text_nonempty)
     (simp add: run_text_def)

theorem empty_mini_batch_witness:
  "run_torch example_torch_libs example_torch_state [] = Inr [] \<and>
   run_keras example_keras_libs example_keras_state [] = Inr [] \<and>
   run_parquet example_parquet_libs example_parquet_state [] example_store
     = (Inr [], example_store) \<and>
   read_texts example_text_libs [] = Inr [] \<and>
   run_text example_text_libs example_text_state [] = Inl (UnboundLocalError ''rps'')"
proof -
  have "read_texts example_text_libs [] = Inr []"
    by (simp add: read_texts_def example_text_libs_def)
  with empty_mini_batch [of example_torch_libs example_torch_state example_keras_libs
      example_keras_state example_parquet_libs example_parquet_state example_store
      example_text_libs example_text_state]
  show ?thesis by simp
qed

section \<open>Facts about stems and output paths\<close>

lemma split_sep_no_sep: "f \<in> set (split_sep p) \<Longrightarrow> CHR ''/'' \<notin> set f"
proof (induction p arbitrary: f)
  case Nil
  then show ?case by simp
next
  case (Cons x xs)
  then show ?case by (cases "split_sep xs") (auto split: if_splits)
qed

lemma path_name_no_sep: "CHR ''/'' \<notin> set (path_name p)"
proof (cases "filter (\<lambda>x. x \<noteq> [] \<and> x \<noteq> ''.'') (split_sep p) = []")
  case True
  then show ?thesis by (simp add: path_name_def)
next
  case False
  then have "last (filter (\<lambda>x. x \<noteq> [] \<and> x \<noteq> ''.'') (split_sep p)) \<in> set (split_sep p)"
    using last_in_set [OF False] by auto
  with False show ?thesis by (simp add: path_name_def Let_def split_sep_no_sep)
qed

lemma stem_no_sep: "CHR ''/'' \<notin> set (stem p)"
  using path_name_no_sep [of p] by (auto simp: stem_def Let_def dest: in_set_takeD)

lemma output_file_path_unfold:
  "output_file_path st p =
     (if output_path st = [] \<or> last (output_path st) = CHR ''/''
      then output_path st @ stem p @ ''.parquet''
      else output_path st @ ''/'' @ stem p @ ''.parquet'')"
  using stem_no_sep [of p] by (cases "stem p") (auto simp: output_file_path_def path_join_def)

lemma output_file_path_eq_iff:
  "output_file_path st p = output_file_path st q \<longleftrightarrow> stem p = stem q"
  by (auto simp: output_file_path_unfold)

section \<open>Facts about the parquet driver\<close>

lemma scored_frame_cong: "fs p = fs' p \<Longrightarrow> scored_frame L st fs p = scored_frame L st fs' p"
  by (simp add: scored_frame_def read_csv_def)

lemma artifact_cong: "fs p = fs' p \<Longrightarrow> artifact L st fs p = artifact L st fs' p"
  by (simp add: artifact_def scored_frame_cong [of fs p fs'])

lemma artifact_Inr_iff:
  "artifact L st fs p = Inr (out, b) \<longleftrightarrow>
     (\<exists>df. scored_frame L st fs p = Inr df \<and> write_check L (output_file_path st p) df = None \<and>
        out = output_file_path st p \<and> b = parquet_bytes L df)"
  by (auto simp: artifact_def split: sum.splits option.splits)

lemma score_parquet_artifact:
  "score_parquet L st p s =
     (case artifact L st (files s) p of
        Inl e \<Rightarrow> (Inl e, s)
      | Inr (out, b) \<Rightarrow> (Inr (), s\<lparr>files := (files s)(out \<mapsto> b), written := written s @ [(out, b)]\<rparr>))"
  by (simp add: score_parquet_def artifact_def to_parquet_def split: sum.splits option.splits)

lemma for_each_st_append:
  "for_each_st f (xs @ ys) s =
     (case for_each_st f xs s of
        (Inl e, s') \<Rightarrow> (Inl e, s')
      | (Inr u, s') \<Rightarrow> for_each_st f ys s')"
  by (induction xs arbitrary: s) (auto split: prod.splits sum.splits)

text \<open>
  When no output path is among the paths \<open>A\<close> still to be read, the loop is the pure loop
  over the artifacts of the files as they were at the start.
\<close>

lemma for_each_st_parquet_Inr:
  assumes "for_each (artifact L st fs0) mb = Inr arts"
    and "\<And>p. p \<in> set mb \<Longrightarrow> output_file_path st p \<notin> A"
    and "set mb \<subseteq> A"
    and "\<And>q. q \<in> A \<Longrightarrow> files s q = fs0 q"
  shows "for_each_st (score_parquet L st) mb s =
           (Inr (), s\<lparr>files := files s ++ map_of (rev arts), written := written s @ arts\<rparr>)"
  using assms
proof (induction mb arbitrary: s arts)
  case Nil
  then show ?case by simp
next
  case (Cons p mb)
  from Cons.prems(1) obtain a as where
    a: "artifact L st fs0 p = Inr a" and as: "for_each (artifact L st fs0) mb = Inr as"
    and arts: "arts = a # as"
    by (auto split: sum.splits)
  obtain out b where ab: "a = (out, b)" by (cases a)
  have "files s p = fs0 p" using Cons.prems(3,4) by simp
  then have a': "artifact L st (files s) p = Inr (out, b)"
    using a ab artifact_cong [of "files s" p fs0 L st] by simp
  have out: "out = output_file_path st p" using a ab by (auto simp: artifact_Inr_iff)
  define s1 where "s1 = s\<lparr>files := (files s)(out \<mapsto> b), written := written s @ [(out, b)]\<rparr>"
  have step: "score_parquet L st p s = (Inr (), s1)"
    by (simp add: score_parquet_artifact a' s1_def)
  have "out \<notin> A" using Cons.prems(2) [of p] out by simp
  then have agree: "\<And>q. q \<in> A \<Longrightarrow> files s1 q = fs0 q"
    using Cons.prems(4) by (auto simp: s1_def)
  have rest: "for_each_st (score_parquet L st) mb s1 =
          (Inr (), s1\<lparr>files := files s1 ++ map_of (rev as), written := written s1 @ as\<rparr>)"
    using as Cons.prems(2,3) agree by (intro Cons.IH) auto
  have "(files s)(out \<mapsto> b) ++ map_of (rev as) = files s ++ map_of (rev ((out, b) # as))"
    by (rule ext) (simp add: map_add_def split: option.splits)
  then have eq: "s1\<lparr>files := files s1 ++ map_of (rev as), written := written s1 @ as\<rparr> =
      s\<lparr>files := files s ++ map_of (rev arts), written := written s @ arts\<rparr>"
    unfolding s1_def arts ab by simp
  have "for_each_st (score_parquet L st) mb s1 =
      (Inr (), s\<lparr>files := files s ++ map_of (rev arts), written := written s @ arts\<rparr>)"
    unfolding rest eq ..
  with step show ?case by simp
qed

lemma for_each_st_parquet_Inl:
  assumes "for_each (artifact L st fs0) mb = Inl e"
    and "\<And>p. p \<in> set mb \<Longrightarrow> output_file_path st p \<notin> A"
    and "set mb \<subseteq> A"
    and "\<And>q. q \<in> A \<Longrightarrow> files s q = fs0 q"
  shows "\<exists>s'. for_each_st (score_parquet L st) mb s = (Inl e, s')"
  using assms
proof (induction mb arbitrary: s)
  case Nil
  then show ?case by simp
next
  case (Cons p mb)
  have same: "files s p = fs0 p" using Cons.prems(3,4) by simp
  show ?case
  proof (cases "artifact L st fs0 p")
    case (Inl e')
    with Cons.prems(1) have "e' = e" by simp
    with Inl same artifact_cong [of "files s" p fs0 L st] show ?thesis
      by (simp add: score_parquet_artifact)
  next
    case (Inr a)
    obtain out b where ab: "a = (out, b)" by (cases a)
    from Inr Cons.prems(1) have rest: "for_each (artifact L st fs0) mb = Inl e"
      by (auto split: sum.splits)
    have a': "artifact L st (files s) p = Inr (out, b)"
      using Inr ab same artifact_cong [of "files s" p fs0 L st] by simp
    have out: "out = output_file_path st p" using Inr ab by (auto simp: artifact_Inr_iff)
    define s1 where "s1 = s\<lparr>files := (files s)(out \<mapsto> b), written := written s @ [(out, b)]\<rparr>"
    have step: "score_parquet L st p s = (Inr (), s1)"
      by (simp add: score_parquet_artifact a' s1_def)
    have "out \<notin> A" using Cons.prems(2) [of p] out by simp
    then have agree: "\<And>q. q \<in> A \<Longrightarrow> files s1 q = fs0 q"
      using Cons.prems(4) by (auto simp: s1_def)
    have "\<exists>s'. for_each_st (score_parquet L st) mb s1 = (Inl e, s')"
      using rest Cons.prems(2,3) agree by (intro Cons.IH) auto
    with step show ?thesis by simp
  qed
qed

lemma outputs_apart_iff:
  "outputs_apart st mb \<longleftrightarrow> (\<forall>p\<in>set mb. output_file_path st p \<notin> set mb)"
  by (simp add: outputs_apart_def list_all_iff)

lemma run_parquet_apart:
  assumes "outputs_apart st mb"
  shows "for_each (artifact L st (files s)) mb = Inr arts \<Longrightarrow>
           run_parquet L st mb s =
             (Inr mb, s\<lparr>files := files s ++ map_of (rev arts), written := written s @ arts\<rparr>)"
    and "for_each (artifact L st (files s)) mb = Inl e \<Longrightarrow>
           \<exists>s'. run_parquet L st mb s = (Inl e, s')"
proof -
  have apart: "\<And>p. p \<in> set mb \<Longrightarrow> output_file_path st p \<notin> set mb"
    using assms by (simp add: outputs_apart_iff)
  show "run_parquet L st mb s =
          (Inr mb, s\<lparr>files := files s ++ map_of (rev arts), written := written s @ arts\<rparr>)"
    if "for_each (artifact L st (files s)) mb = Inr arts"
    using for_each_st_parquet_Inr [OF that apart, where s = s]
    by (simp add: run_parquet_def)
  show "\<exists>s'. run_parquet L st mb s = (Inl e, s')"
    if "for_each (artifact L st (files s)) mb = Inl e"
    using for_each_st_parquet_Inl [OF that apart, where s = s]
    by (auto simp: run_parquet_def)
qed

section \<open>Failing items\<close>



lemma example_output_paths:
  "output_file_path example_parquet_state ''/in/a.csv'' = ''/out/a.parquet''"
  "output_file_path example_parquet_state ''/in/b.csv'' = ''/out/b.parquet''"
  "output_file_path example_parquet_state ''/in/x/a.csv'' = ''/out/a.parquet''"
  "output_file_path example_parquet_state ''/in/p.csv'' = ''/out/p.parquet''"
  "output_file_path example_parquet_state ''/in/missing.csv'' = ''/out/missing.parquet''"
  by (simp_all add: output_file_path_def example_parquet_state_def stem_def path_name_def
      path_join_def Let_def)


section \<open>How many records a run returns\<close>

lemma run_parquet_total:
  assumes "outputs_apart st mb"
    and "\<forall>p\<in>set mb. \<exists>a. artifact P st (files s) p = Inr a"
  shows "\<exists>s' arts. run_parquet P st mb s = (Inr mb, s') \<and> written s' = written s @ arts \<and>
           length arts = length mb \<and> map fst arts = map (output_file_path st) mb"
proof -
  from assms(2) obtain arts where arts: "for_each (artifact P st (files s)) mb = Inr arts"
    using for_each_total [of mb "artifact P st (files s)"] by blast
  have "map fst arts = map (output_file_path st) mb"
    using arts by (rule for_each_map) (auto simp: artifact_Inr_iff)
  with run_parquet_apart(1) [OF assms(1) arts] for_each_length [OF arts]
  show ?thesis by simp
qed

lemma run_text_total:
  assumes "read_texts T mb = Inr texts" and "texts \<noteq> []"
    and "\<forall>t\<in>set texts. \<exists>r. summarize T st t = Inr r"
    and "log_metric T ''rows_per_second'' = Inr ()"
  shows "\<exists>rs. run_text T st mb = Inr rs \<and> length rs = length texts"
proof -
  from assms(3) obtain rs where rs: "for_each (summarize T st) texts = Inr rs"
    using for_each_total [of texts "summarize T st"] by blast
  with assms(1,2,4) have "run_text T st mb = Inr rs" by (simp add: run_text_Inr_iff)
  with for_each_length [OF rs] show ?thesis by simp
qed

text \<open>
  C1, as the text driver contradicts it: a mini-batch of one valid file, \<^verbatim>\<open>bills.csv\<close> with
  two rows, yields two records.
\<close>

theorem one_record_per_item_counterexample:
  "run_text example_text_libs example_text_state [''bills.csv''] = Inr [''first'', ''secon''] \<and>
   length [''first'', ''secon''] \<noteq> length [''bills.csv'']"
  by (simp add: run_text_def read_texts_def summarize_def example_text_libs_def
      example_text_state_def)

text \<open>
  C1, amended. For a mini-batch of \<open>N\<close> valid paths the torch driver (on a CPU worker) and
  the keras driver return exactly \<open>N\<close> records; the parquet driver, when no output path is
  one of the mini-batch's inputs, performs exactly \<open>N\<close> writes, one per path in order, and
  returns the \<open>N\<close> paths. The text driver returns one record per row of the files it loaded,
  when they hold at least one row: as many records as rows, whatever \<open>N\<close> is.
\<close>

theorem one_record_per_item:
  fixes L :: "('img, 'sd, 'model) torch_libs" and K :: "('kimg, 'kmodel) keras_libs"
    and P :: "'pmodel parquet_libs" and T :: "('tok, 'tmodel, 'ds, 'ids) text_libs"
  shows
    "(torch_device st = Cpu \<and>
      (\<forall>p\<in>set mb. \<exists>logits. torch_logits L st p = Inr logits \<and> logits \<noteq> []) \<longrightarrow>
        (\<exists>rs. run_torch L st mb = Inr rs \<and> length rs = length mb)) \<and>
     ((\<forall>p\<in>set mb. \<exists>pred. keras_logits K kst p = Inr pred \<and> pred \<noteq> []) \<longrightarrow>
        (\<exists>rs. run_keras K kst mb = Inr rs \<and> length rs = length mb)) \<and>
     (outputs_apart pst mb \<and> (\<forall>p\<in>set mb. \<exists>a. artifact P pst (files s) p = Inr a) \<longrightarrow>
        (\<exists>s' arts. run_parquet P pst mb s = (Inr mb, s') \<and> written s' = written s @ arts \<and>
           length arts = length mb \<and> map fst arts = map (output_file_path pst) mb)) \<and>
     (read_texts T mb = Inr texts \<and> texts \<noteq> [] \<and>
      (\<forall>t\<in>set texts. \<exists>r. summarize T tst t = Inr r) \<and>
      log_metric T ''rows_per_second'' = Inr () \<longrightarrow>
        (\<exists>rs. run_text T tst mb = Inr rs \<and> length rs = length texts))"
  using run_torch_total [of st mb L] run_keras_total [of mb K kst]
    run_parquet_total [of pst mb P s] run_text_total [of T mb texts tst]
  by blast

lemma example_artifacts:
  "artifact example_parquet_libs example_parquet_state (files example_store) ''/in/a.csv''
     = Inr (''/out/a.parquet'', ''PAR1age=63,;prediction=1,;'')"
  "artifact example_parquet_libs example_parquet_state (files example_store) ''/in/b.csv''
     = Inr (''/out/b.parquet'', ''PAR1age=41,;prediction=1,;'')"
  "artifact example_parquet_libs example_parquet_state (files example_store) ''/in/x/a.csv''
     = Inr (''/out/a.parquet'', ''PAR1age=41,;prediction=1,;'')"
  "artifact example_parquet_libs example_parquet_state (files example_store) ''/in/p.csv''
     = Inr (''/out/p.parquet'', ''PAR1age=63,;prediction=1,;'')"
  by (simp_all add: artifact_def scored_frame_def read_csv_def set_column_def nrows_def
      example_output_paths example_store_def example_parquet_libs_def example_encode_def)

lemma example_summaries:
  "summarize example_text_libs example_text_state ''first bill'' = Inr ''first''"
  "summarize example_text_libs example_text_state ''second bill'' = Inr ''secon''"
  "summarize example_text_libs example_text_state ''third bill'' = Inr ''third''"
  by (simp_all add: summarize_def example_text_libs_def example_text_state_def)

lemma example_texts:
  "read_texts example_text_libs [''bills.csv''] = Inr [''first bill'', ''second bill'']"
  "read_texts example_text_libs [''one.csv''] = Inr [''third bill'']"
  "read_texts example_text_libs [''bills.csv'', ''one.csv'']
     = Inr [''first bill'', ''second bill'', ''third bill'']"
  "read_texts example_text_libs [''header.csv''] = Inr []"
  by (simp_all add: read_texts_def example_text_libs_def)

lemma example_log_metric: "log_metric example_text_libs name = Inr ()"
  by (simp add: example_text_libs_def)

theorem one_record_per_item_witness:
  "(\<exists>rs. run_torch example_torch_libs example_torch_state [''a.png'', ''b.png''] = Inr rs \<and>
      length rs = 2) \<and>
   (\<exists>rs. run_keras example_keras_libs example_keras_state [''a.png'', ''b.png''] = Inr rs \<and>
      length rs = 2) \<and>
   (\<exists>s' arts. run_parquet example_parquet_libs example_parquet_state
        [''/in/a.csv'', ''/in/b.csv''] example_store = (Inr [''/in/a.csv'', ''/in/b.csv''], s') \<and>
      written s' = arts \<and> length arts = 2 \<and>
      map fst arts = [''/out/a.parquet'', ''/out/b.parquet'']) \<and>
   (\<exists>rs. run_text example_text_libs example_text_state [''bills.csv''] = Inr rs \<and>
      length rs = 2)"
proof -
  note inst = one_record_per_item [where L = example_torch_libs and st = example_torch_state
      and mb = "[''a.png'', ''b.png'']" and K = example_keras_libs and kst = example_keras_state]
  note pinst = one_record_per_item [where P = example_parquet_libs
      and pst = example_parquet_state and mb = "[''/in/a.csv'', ''/in/b.csv'']"
      and s = example_store]
  note tinst = one_record_per_item [where T = example_text_libs and tst = example_text_state
      and mb = "[''bills.csv'']" and texts = "[''first bill'', ''second bill'']"]
  have apart: "outputs_apart example_parquet_state [''/in/a.csv'', ''/in/b.csv'']"
    by (simp add: outputs_apart_def example_output_paths)
  have "\<exists>rs. run_torch example_torch_libs example_torch_state [''a.png'', ''b.png''] = Inr rs \<and>
      length rs = 2"
    using inst [THEN conjunct1] by (simp add: example_torch_logits example_torch_device numeral_2_eq_2)
  moreover have "\<exists>rs. run_keras example_keras_libs example_keras_state [''a.png'', ''b.png'']
      = Inr rs \<and> length rs = 2"
    using inst [THEN conjunct2, THEN conjunct1] by (simp add: example_keras_logits numeral_2_eq_2)
  moreover have "\<exists>s' arts. run_parquet example_parquet_libs example_parquet_state
        [''/in/a.csv'', ''/in/b.csv''] example_store = (Inr [''/in/a.csv'', ''/in/b.csv''], s') \<and>
      written s' = arts \<and> length arts = 2 \<and>
      map fst arts = [''/out/a.parquet'', ''/out/b.parquet'']"
    using pinst [THEN conjunct2, THEN conjunct2, THEN conjunct1] apart
    by (simp add: example_artifacts example_output_paths numeral_2_eq_2)
      (simp add: example_store_def)
  moreover have "\<exists>rs. run_text example_text_libs example_text_state [''bills.csv''] = Inr rs \<and>
      length rs = 2"
    using tinst [THEN conjunct2, THEN conjunct2, THEN conjunct2]
    by (simp add: example_texts example_summaries example_log_metric numeral_2_eq_2)
  ultimately show ?thesis by blast
qed

section \<open>Exceptions in \<open>init\<close>\<close>

lemma load_bart_Inl_iff:
  "load_bart T p d = Inl e \<longleftrightarrow>
     (\<exists>e1. model_from_pretrained T p True = Inl e1) \<and> model_from_pretrained T p False = Inl e"
  by (auto simp: load_bart_def split: sum.splits)

lemma load_bart_Inr_iff:
  "load_bart T p d = Inr (m, d') \<longleftrightarrow>
     (model_from_pretrained T p True = Inr m \<and> d' = d) \<or>
     ((\<exists>e1. model_from_pretrained T p True = Inl e1) \<and>
        model_from_pretrained T p False = Inr m \<and> d' = ''cpu'')"
  by (auto simp: load_bart_def split: sum.splits)

lemma init_torch_Inl_iff:
  "init_torch L = Inl e \<longleftrightarrow>
     getenv L ''AZUREML_MODEL_DIR'' = Inl e \<or>
     (\<exists>dir. getenv L ''AZUREML_MODEL_DIR'' = Inr dir \<and>
        (glob_last L (dir @ ''/*/*.pt'') = Inl e \<or>
         (\<exists>f. glob_last L (dir @ ''/*/*.pt'') = Inr f \<and>
            (torch_load L f = Inl e \<or>
             (\<exists>sd. torch_load L f = Inr sd \<and> load_state_dict L sd = Inl e)))))"
  by (auto simp: init_torch_def split: sum.splits)

lemma init_keras_Inl_iff:
  "init_keras K = Inl e \<longleftrightarrow>
     getenv K ''AZUREML_MODEL_DIR'' = Inl e \<or>
     (\<exists>dir. getenv K ''AZUREML_MODEL_DIR'' = Inr dir \<and>
        load_model K (path_join dir ''model'') = Inl e)"
  by (auto simp: init_keras_def split: sum.splits)

lemma init_parquet_Inl_iff:
  "init_parquet P = Inl e \<longleftrightarrow>
     getenv P ''AZUREML_BI_OUTPUT_PATH'' = Inl e \<or>
     (\<exists>out. getenv P ''AZUREML_BI_OUTPUT_PATH'' = Inr out \<and>
        (getenv P ''AZUREML_MODEL_DIR'' = Inl e \<or>
         (\<exists>dir. getenv P ''AZUREML_MODEL_DIR'' = Inr dir \<and>
            (glob_last P (dir @ ''/*/*.pkl'') = Inl e \<or>
             (\<exists>f. glob_last P (dir @ ''/*/*.pkl'') = Inr f \<and> pickle_load P f = Inl e)))))"
  by (auto simp: init_parquet_def split: sum.splits)

lemma init_text_Inl_iff:
  "init_text T = Inl e \<longleftrightarrow>
     (text_cuda_is_available T \<and> cuda_report T = Inl e) \<or>
     ((text_cuda_is_available T \<and> cuda_report T = Inr () \<or> \<not> text_cuda_is_available T) \<and>
      (getenv T ''AZUREML_MODEL_DIR'' = Inl e \<or>
       (\<exists>dir. getenv T ''AZUREML_MODEL_DIR'' = Inr dir \<and>
          (tokenizer_from_pretrained T (path_join dir ''model'') = Inl e \<or>
           (\<exists>tok. tokenizer_from_pretrained T (path_join dir ''model'') = Inr tok \<and>
              ((\<exists>e1. model_from_pretrained T (path_join dir ''model'') True = Inl e1) \<and>
                 model_from_pretrained T (path_join dir ''model'') False = Inl e \<or>
               (\<exists>m d. load_bart T (path_join dir ''model'')
                          (if text_cuda_is_available T then ''cuda'' else ''cpu'') = Inr (m, d) \<and>
                  (log_param T ''device'' d = Inl e \<or>
                   log_param T ''device'' d = Inr () \<and>
                   log_param T ''model'' (type_name T (optimize_bart T m d)) = Inl e))))))))"
proof -
  have "init_text T = Inl e \<longleftrightarrow>
     (text_cuda_is_available T \<and> cuda_report T = Inl e) \<or>
     ((text_cuda_is_available T \<and> cuda_report T = Inr () \<or> \<not> text_cuda_is_available T) \<and>
      (getenv T ''AZUREML_MODEL_DIR'' = Inl e \<or>
       (\<exists>dir. getenv T ''AZUREML_MODEL_DIR'' = Inr dir \<and>
          (tokenizer_from_pretrained T (path_join dir ''model'') = Inl e \<or>
           (\<exists>tok. tokenizer_from_pretrained T (path_join dir ''model'') = Inr tok \<and>
              (load_bart T (path_join dir ''model'')
                  (if text_cuda_is_available T then ''cuda'' else ''cpu'') = Inl e \<or>
               (\<exists>m d. load_bart T (path_join dir ''model'')
                          (if text_cuda_is_available T then ''cuda'' else ''cpu'') = Inr (m, d) \<and>
                  (log_param T ''device'' d = Inl e \<or>
                   log_param T ''device'' d = Inr () \<and>
                   log_param T ''model'' (type_name T (optimize_bart T m d)) = Inl e))))))))"
    by (auto simp: init_text_def Let_def split: sum.splits prod.splits)
  then show ?thesis by (simp only: load_bart_Inl_iff)
qed

lemma init_text_fallback:
  assumes "text_cuda_is_available T \<longrightarrow> cuda_report T = Inr ()"
    and "getenv T ''AZUREML_MODEL_DIR'' = Inr dir"
    and "tokenizer_from_pretrained T (path_join dir ''model'') = Inr tok"
    and "model_from_pretrained T (path_join dir ''model'') True = Inl e1"
    and "model_from_pretrained T (path_join dir ''model'') False = Inr m"
    and "log_param T ''device'' ''cpu'' = Inr ()"
    and "log_param T ''model'' (type_name T m) = Inr ()"
  shows "init_text T = Inr \<lparr>bart_model = m, bart_tokenizer = tok, bart_device = ''cpu''\<rparr>"
  using assms by (auto simp: init_text_def Let_def load_bart_def optimize_bart_def)

lemma init_text_untransformed:
  assumes "text_cuda_is_available T" and "cuda_report T = Inr ()"
    and "getenv T ''AZUREML_MODEL_DIR'' = Inr dir"
    and "tokenizer_from_pretrained T (path_join dir ''model'') = Inr tok"
    and "model_from_pretrained T (path_join dir ''model'') True = Inr m"
    and "better_transform T m = Inl e1"
    and "log_param T ''device'' ''cuda'' = Inr ()"
    and "log_param T ''model'' (type_name T m) = Inr ()"
  shows "init_text T = Inr \<lparr>bart_model = m, bart_tokenizer = tok, bart_device = ''cuda''\<rparr>"
  using assms by (auto simp: init_text_def Let_def load_bart_def optimize_bart_def)

text \<open>
  C6, as the text driver contradicts it: the load of the model with \<^verbatim>\<open>device_map="auto"\<close>
  raises, and \<open>init\<close> returns a worker all the same, its model loaded by the second attempt
  and its device set to \<^verbatim>\<open>"cpu"\<close>.
\<close>

theorem init_error_propagates_counterexample:
  "model_from_pretrained example_text_libs ''/var/model/model'' True
     = Inl (LibraryError ''device_map requires accelerate'') \<and>
   init_text example_text_libs =
     Inr \<lparr>bart_model = ''bart'', bart_tokenizer = ''tokenizer'', bart_device = ''cpu''\<rparr>"
  by (simp add: init_text_def example_text_libs_def getenv_def load_bart_def optimize_bart_def
      path_join_def)

text \<open>
  C6, amended. In the torch, keras and parquet drivers \<open>init\<close> raises exactly the exception
  of its first step that raises (reading the environment, taking the last match of the glob,
  loading the model): nothing is caught. In the text driver the same holds for the CUDA report,
  the environment, the tokenizer and the two \<^verbatim>\<open>mlflow.log_param\<close> calls; the exception of
  the first model load is caught and the load tried once more without \<^verbatim>\<open>device_map\<close>, on
  the CPU, so that only the second load's exception leaves \<open>init\<close>; the exception of the
  \<^verbatim>\<open>BetterTransformer\<close> conversion is caught and the model kept as loaded.
\<close>

theorem init_error_propagates:
  fixes L :: "('img, 'sd, 'model) torch_libs" and K :: "('kimg, 'kmodel) keras_libs"
    and P :: "'pmodel parquet_libs" and T :: "('tok, 'tmodel, 'ds, 'ids) text_libs"
  shows
    "(init_torch L = Inl e \<longleftrightarrow>
        getenv L ''AZUREML_MODEL_DIR'' = Inl e \<or>
        (\<exists>dir. getenv L ''AZUREML_MODEL_DIR'' = Inr dir \<and>
           (glob_last L (dir @ ''/*/*.pt'') = Inl e \<or>
            (\<exists>f. glob_last L (dir @ ''/*/*.pt'') = Inr f \<and>
               (torch_load L f = Inl e \<or>
                (\<exists>sd. torch_load L f = Inr sd \<and> load_state_dict L sd = Inl e)))))) \<and>
     (init_keras K = Inl e \<longleftrightarrow>
        getenv K ''AZUREML_MODEL_DIR'' = Inl e \<or>
        (\<exists>dir. getenv K ''AZUREML_MODEL_DIR'' = Inr dir \<and>
           load_model K (path_join dir ''model'') = Inl e)) \<and>
     (init_parquet P = Inl e \<longleftrightarrow>
        getenv P ''AZUREML_BI_OUTPUT_PATH'' = Inl e \<or>
        (\<exists>out. getenv P ''AZUREML_BI_OUTPUT_PATH'' = Inr out \<and>
           (getenv P ''AZUREML_MODEL_DIR'' = Inl e \<or>
            (\<exists>dir. getenv P ''AZUREML_MODEL_DIR'' = Inr dir \<and>
               (glob_last P (dir @ ''/*/*.pkl'') = Inl e \<or>
                (\<exists>f. glob_last P (dir @ ''/*/*.pkl'') = Inr f \<and> pickle_load P f = Inl e)))))) \<and>
     (init_text T = Inl e \<longleftrightarrow>
        (text_cuda_is_available T \<and> cuda_report T = Inl e) \<or>
        ((text_cuda_is_available T \<and> cuda_report T = Inr () \<or> \<not> text_cuda_is_available T) \<and>
         (getenv T ''AZUREML_MODEL_DIR'' = Inl e \<or>
          (\<exists>dir. getenv T ''AZUREML_MODEL_DIR'' = Inr dir \<and>
             (tokenizer_from_pretrained T (path_join dir ''model'') = Inl e \<or>
              (\<exists>tok. tokenizer_from_pretrained T (path_join dir ''model'') = Inr tok \<and>
                 ((\<exists>e1. model_from_pretrained T (path_join dir ''model'') True = Inl e1) \<and>
                    model_from_pretrained T (path_join dir ''model'') False = Inl e \<or>
                  (\<exists>m d. load_bart T (path_join dir ''model'')
                             (if text_cuda_is_available T then ''cuda'' else ''cpu'') = Inr (m, d) \<and>
                     (log_param T ''device'' d = Inl e \<or>
                      log_param T ''device'' d = Inr () \<and>
                      log_param T ''model'' (type_name T (optimize_bart T m d)) = Inl e))))))))) \<and>
     (load_bart T p d = Inr (m, d') \<longleftrightarrow>
        (model_from_pretrained T p True = Inr m \<and> d' = d) \<or>
        ((\<exists>e1. model_from_pretrained T p True = Inl e1) \<and>
           model_from_pretrained T p False = Inr m \<and> d' = ''cpu'')) \<and>
     optimize_bart T m d =
        (if d = ''cpu'' then m
         else (case better_transform T m of Inl e1 \<Rightarrow> m | Inr m' \<Rightarrow> m')) \<and>
     ((text_cuda_is_available T \<longrightarrow> cuda_report T = Inr ()) \<and>
      getenv T ''AZUREML_MODEL_DIR'' = Inr dir \<and>
      tokenizer_from_pretrained T (path_join dir ''model'') = Inr tok \<and>
      model_from_pretrained T (path_join dir ''model'') True = Inl e1 \<and>
      model_from_pretrained T (path_join dir ''model'') False = Inr m \<and>
      log_param T ''device'' ''cpu'' = Inr () \<and>
      log_param T ''model'' (type_name T m) = Inr () \<longrightarrow>
        init_text T = Inr \<lparr>bart_model = m, bart_tokenizer = tok, bart_device = ''cpu''\<rparr>)"
proof (intro conjI)
  show "optimize_bart T m d =
        (if d = ''cpu'' then m
         else (case better_transform T m of Inl e1 \<Rightarrow> m | Inr m' \<Rightarrow> m'))"
    by (simp add: optimize_bart_def)
  show "(text_cuda_is_available T \<longrightarrow> cuda_report T = Inr ()) \<and>
      getenv T ''AZUREML_MODEL_DIR'' = Inr dir \<and>
      tokenizer_from_pretrained T (path_join dir ''model'') = Inr tok \<and>
      model_from_pretrained T (path_join dir ''model'') True = Inl e1 \<and>
      model_from_pretrained T (path_join dir ''model'') False = Inr m \<and>
      log_param T ''device'' ''cpu'' = Inr () \<and>
      log_param T ''model'' (type_name T m) = Inr () \<longrightarrow>
        init_text T = Inr \<lparr>bart_model = m, bart_tokenizer = tok, bart_device = ''cpu''\<rparr>"
    using init_text_fallback [of T dir tok e1 m] by blast
qed (rule init_torch_Inl_iff init_keras_Inl_iff init_parquet_Inl_iff init_text_Inl_iff
    load_bart_Inr_iff)+

theorem init_error_propagates_witness:
  "init_torch (example_torch_libs\<lparr>environ := Map.empty\<rparr>) = Inl (KeyError ''AZUREML_MODEL_DIR'') \<and>
   init_keras (example_keras_libs\<lparr>load_model := \<lambda>p. Inl (LibraryError ''bad format'')\<rparr>)
     = Inl (LibraryError ''bad format'') \<and>
   init_parquet (example_parquet_libs\<lparr>glob := \<lambda>pat. []\<rparr>) = Inl IndexError \<and>
   init_text (example_text_libs\<lparr>model_from_pretrained := \<lambda>p auto. Inl (LibraryError ''no model'')\<rparr>)
     = Inl (LibraryError ''no model'') \<and>
   init_text example_text_libs = Inr example_text_state"
proof -
  note finst = init_error_propagates [where T = example_text_libs and dir = "''/var/model''"
      and tok = "''tokenizer''" and m = "''bart''"
      and ?e1.0 = "LibraryError ''device_map requires accelerate''",
      THEN conjunct2, THEN conjunct2, THEN conjunct2, THEN conjunct2, THEN conjunct2,
      THEN conjunct2]
  have fallback: "init_text example_text_libs = Inr example_text_state"
    using finst by (simp add: getenv_def path_join_def example_text_libs_def example_text_state_def)
  note inst = init_error_propagates [where L = "example_torch_libs\<lparr>environ := Map.empty\<rparr>"
      and e = "KeyError ''AZUREML_MODEL_DIR''", THEN conjunct1]
  note kinst = init_error_propagates [where e = "LibraryError ''bad format''"
      and K = "example_keras_libs\<lparr>load_model := \<lambda>p. Inl (LibraryError ''bad format'')\<rparr>",
      THEN conjunct2, THEN conjunct1]
  note pinst = init_error_propagates [where e = IndexError
      and P = "example_parquet_libs\<lparr>glob := \<lambda>pat. []\<rparr>",
      THEN conjunct2, THEN conjunct2, THEN conjunct1]
  note tinst = init_error_propagates [where e = "LibraryError ''no model''"
      and T = "example_text_libs\<lparr>model_from_pretrained := \<lambda>p auto. Inl (LibraryError ''no model'')\<rparr>",
      THEN conjunct2, THEN conjunct2, THEN conjunct2, THEN conjunct1]
  have "init_torch (example_torch_libs\<lparr>environ := Map.empty\<rparr>)
      = Inl (KeyError ''AZUREML_MODEL_DIR'')"
    unfolding inst by (simp add: getenv_def example_torch_libs_def)
  moreover have "init_keras (example_keras_libs\<lparr>load_model := \<lambda>p. Inl (LibraryError ''bad format'')\<rparr>)
     = Inl (LibraryError ''bad format'')"
    unfolding kinst by (simp add: getenv_def path_join_def example_keras_libs_def)
  moreover have "init_parquet (example_parquet_libs\<lparr>glob := \<lambda>pat. []\<rparr>) = Inl IndexError"
    unfolding pinst by (simp add: getenv_def glob_last_def example_parquet_libs_def)
  moreover have "init_text (example_text_libs\<lparr>model_from_pretrained := \<lambda>p auto. Inl (LibraryError ''no model'')\<rparr>)
     = Inl (LibraryError ''no model'')"
    unfolding tinst by (simp add: getenv_def path_join_def example_text_libs_def)
  ultimately show ?thesis using fallback by blast
qed

section \<open>Independence of the partition into mini-batches\<close>







section \<open>The same item twice\<close>



section \<open>What the parquet driver writes\<close>

lemma score_parquet_Inr:
  assumes "score_parquet P st p s = (Inr u, s')"
  shows "\<exists>out. scored_frame P st (files s) p = Inr out \<and>
           s' = s\<lparr>files := (files s)(output_file_path st p \<mapsto> parquet_bytes P out),
                  written := written s @ [(output_file_path st p, parquet_bytes P out)]\<rparr>"
  using assms
  by (auto simp: score_parquet_def to_parquet_def split: sum.splits option.splits)

lemma for_each_st_written:
  "for_each_st (score_parquet P st) mb s = (Inr u, s') \<Longrightarrow>
     \<exists>arts. written s' = written s @ arts \<and> files s' = files s ++ map_of (rev arts) \<and>
       map fst arts = map (output_file_path st) mb"
proof (induction mb arbitrary: s)
  case Nil
  then show ?case by simp
next
  case (Cons p mb)
  from Cons.prems obtain s1 where step: "score_parquet P st p s = (Inr (), s1)"
    and rest: "for_each_st (score_parquet P st) mb s1 = (Inr u, s')"
    by (auto split: prod.splits sum.splits)
  from score_parquet_Inr [OF step] obtain out where
    s1: "s1 = s\<lparr>files := (files s)(output_file_path st p \<mapsto> parquet_bytes P out),
                 written := written s @ [(output_file_path st p, parquet_bytes P out)]\<rparr>"
    by blast
  from Cons.IH [OF rest] obtain a2 where
    a2: "written s' = written s1 @ a2" "files s' = files s1 ++ map_of (rev a2)"
        "map fst a2 = map (output_file_path st) mb" by blast
  let ?a = "(output_file_path st p, parquet_bytes P out)"
  have "files s' = files s ++ map_of (rev (?a # a2))"
    unfolding a2(2) s1 by (rule ext) (simp add: map_add_def split: option.splits)
  moreover have "written s' = written s @ (?a # a2)" using a2(1) s1 by simp
  moreover have "map fst (?a # a2) = map (output_file_path st) (p # mb)" using a2(3) by simp
  ultimately show ?case by blast
qed

lemma map_of_rev_last:
  assumes "j < length xs" and "\<forall>k. j < k \<and> k < length xs \<longrightarrow> fst (xs ! k) \<noteq> fst (xs ! j)"
  shows "map_of (rev xs) (fst (xs ! j)) = Some (snd (xs ! j))"
proof -
  have split: "xs = take j xs @ xs ! j # drop (Suc j) xs"
    using assms(1) by (simp add: id_take_nth_drop)
  have "fst (xs ! j) \<notin> fst ` set (drop (Suc j) xs)"
  proof
    assume "fst (xs ! j) \<in> fst ` set (drop (Suc j) xs)"
    then obtain y where y: "y \<in> set (drop (Suc j) xs)" "fst y = fst (xs ! j)" by auto
    then obtain n where n: "n < length (drop (Suc j) xs)" "drop (Suc j) xs ! n = y"
      by (auto simp: in_set_conv_nth)
    then have "xs ! (Suc j + n) = y" "Suc j + n < length xs" by auto
    with y(2) assms(2) show False by (metis less_add_Suc1 add_Suc)
  qed
  then have none: "map_of (rev (drop (Suc j) xs)) (fst (xs ! j)) = None"
    by (simp add: map_of_eq_None_iff)
  have "rev xs = rev (drop (Suc j) xs) @ xs ! j # rev (take j xs)"
    by (subst split) simp
  then have "map_of (rev xs) (fst (xs ! j)) =
      map_of (rev (drop (Suc j) xs) @ (fst (xs ! j), snd (xs ! j)) # rev (take j xs)) (fst (xs ! j))"
    by simp
  also have "\<dots> = Some (snd (xs ! j))"
    using none by (simp add: map_add_def)
  finally show ?thesis .
qed

lemma set_column_lengths:
  assumes "length vals = nrows df"
  shows "set_column key vals df =
           Inr (if key \<in> set (map fst df)
                then map (\<lambda>(n, c). if n = key then (n, vals) else (n, c)) df
                else df @ [(key, vals)])"
  using assms by (auto simp: set_column_def Let_def)

lemma scored_frame_Inr_iff:
  "scored_frame P st fs p = Inr out \<longleftrightarrow>
     (\<exists>data pred. read_csv P fs p = Inr data \<and> xgb_predict P (xgb_model st) data = Inr pred \<and>
        set_column ''prediction'' pred data = Inr out)"
  by (auto simp: scored_frame_def split: sum.splits)

lemma run_parquet_Inr:
  assumes "run_parquet P st mb s = (Inr acks, s')"
  shows "acks = mb \<and> for_each_st (score_parquet P st) mb s = (Inr (), s')"
  using assms by (auto simp: run_parquet_def split: prod.splits sum.splits)

lemma init_parquet_output_path:
  "init_parquet P = Inr st \<Longrightarrow> environ P ''AZUREML_BI_OUTPUT_PATH'' = Some (output_path st)"
  by (auto simp: init_parquet_def getenv_def split: sum.splits option.splits)

lemma output_name_no_sep: "CHR ''/'' \<notin> set (stem p @ ''.parquet'')"
  using stem_no_sep [of p] by simp

text \<open>
  C2, as the driver contradicts it. Two inputs with the same stem,
  \<^verbatim>\<open>/in/a.csv\<close> and \<^verbatim>\<open>/in/x/a.csv\<close>, leave one output file, \<^verbatim>\<open>/out/a.parquet\<close>,
  not one per item. And the input \<^verbatim>\<open>/in/p.csv\<close>, which has a column \<^verbatim>\<open>prediction\<close>
  of its own, is written with the same two columns, the cells of that column replaced: no
  column is added and the original rows are not all kept.
\<close>

theorem parquet_output_per_item_counterexample:
  "fst (run_parquet example_parquet_libs example_parquet_state
       [''/in/a.csv'', ''/in/x/a.csv''] example_store)
     = Inr [''/in/a.csv'', ''/in/x/a.csv''] \<and>
   files (snd (run_parquet example_parquet_libs example_parquet_state
       [''/in/a.csv'', ''/in/x/a.csv''] example_store))
     = (files example_store)(''/out/a.parquet'' \<mapsto> ''PAR1age=41,;prediction=1,;'') \<and>
   read_csv example_parquet_libs (files example_store) ''/in/p.csv''
     = Inr [(''age'', [Cell ''63'']), (''prediction'', [Cell ''7''])] \<and>
   scored_frame example_parquet_libs example_parquet_state (files example_store) ''/in/p.csv''
     = Inr [(''age'', [Cell ''63'']), (''prediction'', [Cell ''1''])]"
proof -
  have "outputs_apart example_parquet_state [''/in/a.csv'', ''/in/x/a.csv'']"
    by (simp add: outputs_apart_def example_output_paths)
  from run_parquet_apart(1) [OF this, of example_parquet_libs example_store
      "[(''/out/a.parquet'', ''PAR1age=63,;prediction=1,;''),
        (''/out/a.parquet'', ''PAR1age=41,;prediction=1,;'')]"]
  have "fst (run_parquet example_parquet_libs example_parquet_state
       [''/in/a.csv'', ''/in/x/a.csv''] example_store)
     = Inr [''/in/a.csv'', ''/in/x/a.csv''] \<and>
   files (snd (run_parquet example_parquet_libs example_parquet_state
       [''/in/a.csv'', ''/in/x/a.csv''] example_store))
     = (files example_store)(''/out/a.parquet'' \<mapsto> ''PAR1age=41,;prediction=1,;'')"
    by (simp add: example_artifacts)
  moreover have "read_csv example_parquet_libs (files example_store) ''/in/p.csv''
     = Inr [(''age'', [Cell ''63'']), (''prediction'', [Cell ''7''])]"
    by (simp add: read_csv_def example_store_def example_parquet_libs_def)
  moreover have "scored_frame example_parquet_libs example_parquet_state (files example_store)
      ''/in/p.csv'' = Inr [(''age'', [Cell ''63'']), (''prediction'', [Cell ''1''])]"
    by (simp add: scored_frame_def read_csv_def set_column_def nrows_def example_store_def
        example_parquet_libs_def)
  ultimately show ?thesis by blast
qed


lemma artifacts_frames:
  "list_all2 (\<lambda>p a. artifact P st fs p = Inr a) mb arts \<Longrightarrow>
     \<exists>frames. list_all2 (\<lambda>p out. scored_frame P st fs p = Inr out) mb frames \<and>
       arts = map2 (\<lambda>p out. (output_file_path st p, parquet_bytes P out)) mb frames"
proof (induction mb arts rule: list_all2_induct)
  case Nil
  then show ?case by simp
next
  case (Cons p mb a arts)
  obtain o1 b1 where a: "a = (o1, b1)" by (cases a)
  with Cons.hyps(1) have "artifact P st fs p = Inr (o1, b1)" by simp
  then obtain out where
    out: "scored_frame P st fs p = Inr out" "o1 = output_file_path st p" "b1 = parquet_bytes P out"
    unfolding artifact_Inr_iff by blast
  from Cons.IH obtain frames where
    fr: "list_all2 (\<lambda>p out. scored_frame P st fs p = Inr out) mb frames"
    "arts = map2 (\<lambda>p out. (output_file_path st p, parquet_bytes P out)) mb frames" by blast
  have A: "list_all2 (\<lambda>p out. scored_frame P st fs p = Inr out) (p # mb) (out # frames)"
    using out(1) fr(1) by simp
  have B: "a # arts =
      map2 (\<lambda>p out. (output_file_path st p, parquet_bytes P out)) (p # mb) (out # frames)"
    using a out(2,3) fr(2) by simp
  show ?case by (rule exI [of _ "out # frames"], rule conjI) (rule A, rule B)
qed

lemma run_parquet_apart_frames:
  assumes "outputs_apart st mb" and "run_parquet P st mb s = (Inr acks, s')"
  shows "\<exists>frames. list_all2 (\<lambda>p out. scored_frame P st (files s) p = Inr out) mb frames \<and>
           written s' = written s @
             map2 (\<lambda>p out. (output_file_path st p, parquet_bytes P out)) mb frames"
proof (cases "for_each (artifact P st (files s)) mb")
  case (Inl e)
  from run_parquet_apart(2) [OF assms(1) Inl] obtain s2 where
    "run_parquet P st mb s = (Inl e, s2)" ..
  with assms(2) show ?thesis by simp
next
  case (Inr arts)
  from run_parquet_apart(1) [OF assms(1) Inr] assms(2)
  have w: "written s' = written s @ arts" by simp
  from Inr have "list_all2 (\<lambda>p a. artifact P st (files s) p = Inr a) mb arts"
    by (simp add: for_each_Inr_iff)
  from artifacts_frames [OF this] obtain frames where
    fr: "list_all2 (\<lambda>p out. scored_frame P st (files s) p = Inr out) mb frames"
    and arts: "arts = map2 (\<lambda>p out. (output_file_path st p, parquet_bytes P out)) mb frames"
    by (elim exE conjE)
  have "written s' = written s @
      map2 (\<lambda>p out. (output_file_path st p, parquet_bytes P out)) mb frames"
    unfolding w arts ..
  with fr show ?thesis by (intro exI [of _ frames] conjI)
qed

text \<open>
  C2, amended. The output directory is the value of \<^verbatim>\<open>AZUREML_BI_OUTPUT_PATH\<close>. A run
  returns when every item of the mini-batch can be read, scored and written and no output
  path is an input of the mini-batch. A run that returns has performed one write per item of the mini-batch, in order, each to the file
  \<open>stem.parquet\<close> directly in that directory, and returns the mini-batch itself; the files
  afterwards are the files before, overwritten by these writes in order (so items of equal
  stem share one file). When no output path is an input of the mini-batch, the frame written
  for an item is the frame of its file as it was before the run, with its \<open>prediction\<close>
  column set. Setting the column, for one prediction per row, appends \<open>prediction\<close> as a new
  last column when the input has no such column, and replaces the cells of that column when
  it has.
\<close>

theorem parquet_output_per_item:
  fixes P :: "'pmodel parquet_libs"
  shows
    "(init_parquet P = Inr st \<longrightarrow>
        environ P ''AZUREML_BI_OUTPUT_PATH'' = Some (output_path st)) \<and>
     output_file_path st p = path_join (output_path st) (stem p @ ''.parquet'') \<and>
     CHR ''/'' \<notin> set (stem p @ ''.parquet'') \<and>
     (outputs_apart st mb \<and> (\<forall>p\<in>set mb. \<exists>a. artifact P st (files s) p = Inr a) \<longrightarrow>
        (\<exists>s'. run_parquet P st mb s = (Inr mb, s'))) \<and>
     (run_parquet P st mb s = (Inr acks, s') \<longrightarrow>
        acks = mb \<and>
        (\<exists>arts. written s' = written s @ arts \<and>
           map fst arts = map (output_file_path st) mb \<and>
           files s' = files s ++ map_of (rev arts))) \<and>
     (outputs_apart st mb \<and> run_parquet P st mb s = (Inr acks, s') \<longrightarrow>
        (\<exists>frames. list_all2 (\<lambda>p out. scored_frame P st (files s) p = Inr out) mb frames \<and>
           written s' = written s @
             map2 (\<lambda>p out. (output_file_path st p, parquet_bytes P out)) mb frames)) \<and>
     (scored_frame P st fs p = Inr out \<longrightarrow>
        (\<exists>data pred. read_csv P fs p = Inr data \<and>
           xgb_predict P (xgb_model st) data = Inr pred \<and>
           set_column ''prediction'' pred data = Inr out \<and>
           (length pred = nrows data \<longrightarrow>
              out = (if ''prediction'' \<in> set (map fst data)
                     then map (\<lambda>(n, c). if n = ''prediction'' then (n, pred) else (n, c)) data
                     else data @ [(''prediction'', pred)]))))"
proof (intro conjI impI)
  assume "init_parquet P = Inr st"
  then show "environ P ''AZUREML_BI_OUTPUT_PATH'' = Some (output_path st)"
    by (rule init_parquet_output_path)
next
  show "output_file_path st p = path_join (output_path st) (stem p @ ''.parquet'')"
    by (simp add: output_file_path_def)
next
  show "CHR ''/'' \<notin> set (stem p @ ''.parquet'')" by (rule output_name_no_sep)
next
  assume a: "outputs_apart st mb \<and> (\<forall>p\<in>set mb. \<exists>a. artifact P st (files s) p = Inr a)"
  from a have "outputs_apart st mb" ..
  moreover from a have "\<forall>p\<in>set mb. \<exists>a. artifact P st (files s) p = Inr a" ..
  ultimately obtain s' arts where "run_parquet P st mb s = (Inr mb, s')"
    using run_parquet_total [of st mb P s] by (elim meta_impE exE conjE)
  then show "\<exists>s'. run_parquet P st mb s = (Inr mb, s')" ..
next
  assume "run_parquet P st mb s = (Inr acks, s')"
  then show "acks = mb" by (simp add: run_parquet_Inr)
next
  assume "run_parquet P st mb s = (Inr acks, s')"
  then have "for_each_st (score_parquet P st) mb s = (Inr (), s')" by (simp add: run_parquet_Inr)
  then show "\<exists>arts. written s' = written s @ arts \<and>
      map fst arts = map (output_file_path st) mb \<and> files s' = files s ++ map_of (rev arts)"
    using for_each_st_written [of P st mb s "()" s'] by blast
next
  assume "outputs_apart st mb \<and> run_parquet P st mb s = (Inr acks, s')"
  then show "\<exists>frames. list_all2 (\<lambda>p out. scored_frame P st (files s) p = Inr out) mb frames \<and>
      written s' = written s @
        map2 (\<lambda>p out. (output_file_path st p, parquet_bytes P out)) mb frames"
    using run_parquet_apart_frames [of st mb P s acks s'] by blast
next
  assume "scored_frame P st fs p = Inr out"
  then obtain data pred where d: "read_csv P fs p = Inr data"
    "xgb_predict P (xgb_model st) data = Inr pred" "set_column ''prediction'' pred data = Inr out"
    unfolding scored_frame_Inr_iff by blast
  have "out = (if ''prediction'' \<in> set (map fst data)
               then map (\<lambda>(n, c). if n = ''prediction'' then (n, pred) else (n, c)) data
               else data @ [(''prediction'', pred)])" if "length pred = nrows data"
    using set_column_lengths [OF that, of "''prediction''"] d(3) by simp
  with d show "\<exists>data pred. read_csv P fs p = Inr data \<and>
      xgb_predict P (xgb_model st) data = Inr pred \<and>
      set_column ''prediction'' pred data = Inr out \<and>
      (length pred = nrows data \<longrightarrow>
         out = (if ''prediction'' \<in> set (map fst data)
                then map (\<lambda>(n, c). if n = ''prediction'' then (n, pred) else (n, c)) data
                else data @ [(''prediction'', pred)]))"
    by blast
qed

lemma example_init_parquet: "init_parquet example_parquet_libs = Inr example_parquet_state"
  by (simp add: init_parquet_def getenv_def glob_last_def example_parquet_libs_def
      example_parquet_state_def)

lemma example_frames:
  "scored_frame example_parquet_libs example_parquet_state (files example_store) ''/in/a.csv''
     = Inr [(''age'', [Cell ''63'']), (''prediction'', [Cell ''1''])]"
  "scored_frame example_parquet_libs example_parquet_state (files example_store) ''/in/b.csv''
     = Inr [(''age'', [Cell ''41'']), (''prediction'', [Cell ''1''])]"
  by (simp_all add: scored_frame_def read_csv_def set_column_def nrows_def example_store_def
      example_parquet_libs_def)

theorem parquet_output_per_item_witness:
  "environ example_parquet_libs ''AZUREML_BI_OUTPUT_PATH'' = Some ''/out'' \<and>
   (\<exists>s'. run_parquet example_parquet_libs example_parquet_state [''/in/a.csv'', ''/in/b.csv'']
        example_store = (Inr [''/in/a.csv'', ''/in/b.csv''], s') \<and>
      written s' =
        [(''/out/a.parquet'', parquet_bytes example_parquet_libs
            [(''age'', [Cell ''63'']), (''prediction'', [Cell ''1''])]),
         (''/out/b.parquet'', parquet_bytes example_parquet_libs
            [(''age'', [Cell ''41'']), (''prediction'', [Cell ''1''])])]) \<and>
   (\<exists>data pred. read_csv example_parquet_libs (files example_store) ''/in/a.csv'' = Inr data \<and>
      xgb_predict example_parquet_libs ''xgb'' data = Inr pred \<and>
      length pred = nrows data \<and>
      [(''age'', [Cell ''63'']), (''prediction'', [Cell ''1''])] = data @ [(''prediction'', pred)])"
proof -
  let ?mb = "[''/in/a.csv'', ''/in/b.csv'']"
  have apart: "outputs_apart example_parquet_state ?mb"
    by (simp add: outputs_apart_def example_output_paths)
  have "\<exists>s'. run_parquet example_parquet_libs example_parquet_state ?mb example_store
      = (Inr ?mb, s')"
    using parquet_output_per_item [where P = example_parquet_libs
        and st = example_parquet_state and mb = ?mb and s = example_store,
        THEN conjunct2, THEN conjunct2, THEN conjunct2, THEN conjunct1] apart
    by (simp add: example_artifacts)
  then obtain s' where run: "run_parquet example_parquet_libs example_parquet_state ?mb
      example_store = (Inr ?mb, s')" ..
  note inst = parquet_output_per_item [where P = example_parquet_libs
      and st = example_parquet_state and mb = ?mb and s = example_store and acks = ?mb
      and s' = s' and p = "''/in/a.csv''" and fs = "files example_store"
      and out = "[(''age'', [Cell ''63'']), (''prediction'', [Cell ''1''])]"]
  from inst [THEN conjunct1] have env: "environ example_parquet_libs ''AZUREML_BI_OUTPUT_PATH''
      = Some ''/out''"
    by (simp add: example_init_parquet) (simp add: example_parquet_state_def)
  from inst [THEN conjunct2, THEN conjunct2, THEN conjunct2, THEN conjunct2, THEN conjunct2,
      THEN conjunct1] apart run
  have "\<exists>frames. list_all2 (\<lambda>p out. scored_frame example_parquet_libs example_parquet_state
        (files example_store) p = Inr out) ?mb frames \<and>
    written s' = written example_store @
       map2 (\<lambda>p out. (output_file_path example_parquet_state p,
         parquet_bytes example_parquet_libs out)) ?mb frames"
    by (elim impE) (rule conjI)
  then obtain frames where fr:
    "list_all2 (\<lambda>p out. scored_frame example_parquet_libs example_parquet_state
        (files example_store) p = Inr out) ?mb frames"
    "written s' = written example_store @
       map2 (\<lambda>p out. (output_file_path example_parquet_state p,
         parquet_bytes example_parquet_libs out)) ?mb frames"
    by (elim exE conjE)
  from fr(1) have "frames = [[(''age'', [Cell ''63'']), (''prediction'', [Cell ''1''])],
      [(''age'', [Cell ''41'']), (''prediction'', [Cell ''1''])]]"
    by (auto simp: list_all2_Cons1 example_frames)
  with fr(2) have w: "written s' =
        [(''/out/a.parquet'', parquet_bytes example_parquet_libs
            [(''age'', [Cell ''63'']), (''prediction'', [Cell ''1''])]),
         (''/out/b.parquet'', parquet_bytes example_parquet_libs
            [(''age'', [Cell ''41'']), (''prediction'', [Cell ''1''])])]"
    by (simp add: example_output_paths) (simp add: example_store_def)
  from inst [THEN conjunct2, THEN conjunct2, THEN conjunct2, THEN conjunct2, THEN conjunct2,
      THEN conjunct2]
  obtain data pred where d:
    "read_csv example_parquet_libs (files example_store) ''/in/a.csv'' = Inr data"
    "xgb_predict example_parquet_libs (xgb_model example_parquet_state) data = Inr pred"
    "length pred = nrows data \<longrightarrow>
       [(''age'', [Cell ''63'']), (''prediction'', [Cell ''1''])] =
         (if ''prediction'' \<in> set (map fst data)
          then map (\<lambda>(n, c). if n = ''prediction'' then (n, pred) else (n, c)) data
          else data @ [(''prediction'', pred)])"
    by (auto simp: example_frames)
  from d(1) have data: "data = [(''age'', [Cell ''63''])]"
    by (simp add: read_csv_def example_store_def example_parquet_libs_def)
  from d(2) data have pred: "pred = [Cell ''1'']"
    by (simp add: example_parquet_libs_def nrows_def)
  from data pred have len: "length pred = nrows data" by (simp add: nrows_def)
  with d(3) data have "[(''age'', [Cell ''63'']), (''prediction'', [Cell ''1''])]
      = data @ [(''prediction'', pred)]" by simp
  with d(1,2) len have "\<exists>data pred.
      read_csv example_parquet_libs (files example_store) ''/in/a.csv'' = Inr data \<and>
      xgb_predict example_parquet_libs ''xgb'' data = Inr pred \<and>
      length pred = nrows data \<and>
      [(''age'', [Cell ''63'']), (''prediction'', [Cell ''1''])] = data @ [(''prediction'', pred)]"
    by (auto simp: example_parquet_state_def)
  with env run w show ?thesis by blast
qed

section \<open>Inputs with the same stem\<close>

lemma run_parquet_last_write:
  assumes "run_parquet P st mb s = (Inr acks, s')"
  shows "\<exists>arts. written s' = written s @ arts \<and>
           map fst arts = map (output_file_path st) mb \<and>
           (\<forall>j<length mb.
              (\<forall>k. j < k \<and> k < length mb \<longrightarrow> stem (mb ! k) \<noteq> stem (mb ! j)) \<longrightarrow>
              files s' (output_file_path st (mb ! j)) = Some (snd (arts ! j)))"
proof -
  from assms have "for_each_st (score_parquet P st) mb s = (Inr (), s')"
    by (simp add: run_parquet_Inr)
  from for_each_st_written [OF this] obtain arts where
    w: "written s' = written s @ arts" and f: "files s' = files s ++ map_of (rev arts)"
    and p: "map fst arts = map (output_file_path st) mb" by blast
  have len: "length arts = length mb" using p by (metis length_map)
  have path: "fst (arts ! k) = output_file_path st (mb ! k)" if "k < length mb" for k
    using p that len by (metis nth_map)
  have "files s' (output_file_path st (mb ! j)) = Some (snd (arts ! j))"
    if j: "j < length mb"
      and last: "\<forall>k. j < k \<and> k < length mb \<longrightarrow> stem (mb ! k) \<noteq> stem (mb ! j)" for j
  proof -
    have "\<forall>k. j < k \<and> k < length arts \<longrightarrow> fst (arts ! k) \<noteq> fst (arts ! j)"
      using last j len path by (auto simp: output_file_path_eq_iff)
    with j len have "map_of (rev arts) (fst (arts ! j)) = Some (snd (arts ! j))"
      by (intro map_of_rev_last) simp_all
    with path [OF j] show ?thesis by (simp add: f map_add_def)
  qed
  with w p show ?thesis by blast
qed

lemma run_parquet_append:
  "run_parquet P st (mb1 @ mb2) s = (Inr acks, s2) \<longleftrightarrow>
     (\<exists>s1. run_parquet P st mb1 s = (Inr mb1, s1) \<and> run_parquet P st mb2 s1 = (Inr mb2, s2) \<and>
        acks = mb1 @ mb2)"
proof -
  have iff: "run_parquet P st mb t = (Inr a, t') \<longleftrightarrow>
      a = mb \<and> for_each_st (score_parquet P st) mb t = (Inr (), t')" for mb t a t'
    by (auto simp: run_parquet_def split: prod.splits sum.splits)
  have "for_each_st (score_parquet P st) (mb1 @ mb2) s = (Inr (), s2) \<longleftrightarrow>
      (\<exists>s1. for_each_st (score_parquet P st) mb1 s = (Inr (), s1) \<and>
         for_each_st (score_parquet P st) mb2 s1 = (Inr (), s2))"
  proof (cases "for_each_st (score_parquet P st) mb1 s")
    case (Pair r t)
    then show ?thesis by (cases r) (simp_all add: for_each_st_append)
  qed
  then show ?thesis unfolding iff by auto
qed

text \<open>
  C10. The path an item is written to is the output directory joined with the item's stem and
  \<^verbatim>\<open>.parquet\<close>: two items are written to the same path exactly when their stems are
  equal. A run that returns has written every item to its path, in order, and the file at the
  path of an item holds what was written for the last item of that stem, whatever an earlier
  item of the mini-batch, or an earlier mini-batch, had written there. Two mini-batches run one
  after the other act on the files as one run over their concatenation.
\<close>

theorem same_stem_overwrites:
  fixes P :: "'pmodel parquet_libs"
  shows
    "output_file_path st p = path_join (output_path st) (stem p @ ''.parquet'') \<and>
     (output_file_path st p = output_file_path st q \<longleftrightarrow> stem p = stem q) \<and>
     (run_parquet P st mb s = (Inr acks, s') \<longrightarrow>
        (\<exists>arts. written s' = written s @ arts \<and>
           map fst arts = map (output_file_path st) mb \<and>
           (\<forall>j<length mb.
              (\<forall>k. j < k \<and> k < length mb \<longrightarrow> stem (mb ! k) \<noteq> stem (mb ! j)) \<longrightarrow>
              files s' (output_file_path st (mb ! j)) = Some (snd (arts ! j))))) \<and>
     (run_parquet P st (mb1 @ mb2) s = (Inr acks, s') \<longleftrightarrow>
        (\<exists>s1. run_parquet P st mb1 s = (Inr mb1, s1) \<and>
           run_parquet P st mb2 s1 = (Inr mb2, s') \<and> acks = mb1 @ mb2))"
proof (intro conjI impI)
  show "run_parquet P st (mb1 @ mb2) s = (Inr acks, s') \<longleftrightarrow>
        (\<exists>s1. run_parquet P st mb1 s = (Inr mb1, s1) \<and>
           run_parquet P st mb2 s1 = (Inr mb2, s') \<and> acks = mb1 @ mb2)"
    by (rule run_parquet_append)
  show "output_file_path st p = path_join (output_path st) (stem p @ ''.parquet'')"
    by (simp add: output_file_path_def)
  show "output_file_path st p = output_file_path st q \<longleftrightarrow> stem p = stem q"
    by (rule output_file_path_eq_iff)
  assume "run_parquet P st mb s = (Inr acks, s')"
  then show "\<exists>arts. written s' = written s @ arts \<and>
      map fst arts = map (output_file_path st) mb \<and>
      (\<forall>j<length mb.
         (\<forall>k. j < k \<and> k < length mb \<longrightarrow> stem (mb ! k) \<noteq> stem (mb ! j)) \<longrightarrow>
         files s' (output_file_path st (mb ! j)) = Some (snd (arts ! j)))"
    by (rule run_parquet_last_write)
qed

lemma example_stems: "stem ''/in/a.csv'' = ''a''" "stem ''/in/x/a.csv'' = ''a''"
  by (simp_all add: stem_def path_name_def Let_def)

lemma example_run_same_stem:
  "run_parquet example_parquet_libs example_parquet_state [''/in/a.csv'', ''/in/x/a.csv'']
     example_store =
   (Inr [''/in/a.csv'', ''/in/x/a.csv''],
    example_store\<lparr>files := files example_store ++
        map_of [(''/out/a.parquet'', ''PAR1age=41,;prediction=1,;''),
                (''/out/a.parquet'', ''PAR1age=63,;prediction=1,;'')],
      written := written example_store @
        [(''/out/a.parquet'', ''PAR1age=63,;prediction=1,;''),
         (''/out/a.parquet'', ''PAR1age=41,;prediction=1,;'')]\<rparr>)"
proof -
  have "outputs_apart example_parquet_state [''/in/a.csv'', ''/in/x/a.csv'']"
    by (simp add: outputs_apart_def example_output_paths)
  from run_parquet_apart(1) [OF this, of example_parquet_libs example_store
      "[(''/out/a.parquet'', ''PAR1age=63,;prediction=1,;''),
        (''/out/a.parquet'', ''PAR1age=41,;prediction=1,;'')]"]
  show ?thesis by (simp add: example_artifacts)
qed

theorem same_stem_overwrites_witness:
  "stem ''/in/a.csv'' = stem ''/in/x/a.csv'' \<and>
   output_file_path example_parquet_state ''/in/a.csv''
     = output_file_path example_parquet_state ''/in/x/a.csv'' \<and>
   (\<exists>s'. run_parquet example_parquet_libs example_parquet_state [''/in/a.csv'', ''/in/x/a.csv'']
        example_store = (Inr [''/in/a.csv'', ''/in/x/a.csv''], s') \<and>
      written s' = [(''/out/a.parquet'', ''PAR1age=63,;prediction=1,;''),
                    (''/out/a.parquet'', ''PAR1age=41,;prediction=1,;'')] \<and>
      files s' ''/out/a.parquet'' = Some ''PAR1age=41,;prediction=1,;'' \<and>
      (\<exists>s1. run_parquet example_parquet_libs example_parquet_state [''/in/a.csv''] example_store
           = (Inr [''/in/a.csv''], s1) \<and>
         run_parquet example_parquet_libs example_parquet_state [''/in/x/a.csv''] s1
           = (Inr [''/in/x/a.csv''], s')))"
proof -
  let ?mb = "[''/in/a.csv'', ''/in/x/a.csv'']"
  obtain s' where run: "run_parquet example_parquet_libs example_parquet_state ?mb example_store
      = (Inr ?mb, s')" using example_run_same_stem by blast
  note inst = same_stem_overwrites [where P = example_parquet_libs
      and st = example_parquet_state and p = "''/in/a.csv''" and q = "''/in/x/a.csv''"
      and mb = ?mb and s = example_store and acks = ?mb and s' = s'
      and ?mb1.0 = "[''/in/a.csv'']" and ?mb2.0 = "[''/in/x/a.csv'']"]
  have stems: "stem ''/in/a.csv'' = stem ''/in/x/a.csv''" by (simp add: example_stems)
  with inst [THEN conjunct2, THEN conjunct1]
  have paths: "output_file_path example_parquet_state ''/in/a.csv''
     = output_file_path example_parquet_state ''/in/x/a.csv''" by simp
  from inst [THEN conjunct2, THEN conjunct2, THEN conjunct2] run
  have two: "\<exists>s1. run_parquet example_parquet_libs example_parquet_state [''/in/a.csv'']
        example_store = (Inr [''/in/a.csv''], s1) \<and>
      run_parquet example_parquet_libs example_parquet_state [''/in/x/a.csv''] s1
        = (Inr [''/in/x/a.csv''], s')"
    by simp
  from inst [THEN conjunct2, THEN conjunct2, THEN conjunct1] run obtain arts where
    a: "written s' = written example_store @ arts"
       "\<forall>j<length ?mb. (\<forall>k. j < k \<and> k < length ?mb \<longrightarrow> stem (?mb ! k) \<noteq> stem (?mb ! j)) \<longrightarrow>
          files s' (output_file_path example_parquet_state (?mb ! j)) = Some (snd (arts ! j))"
    by blast
  from run have w: "written s' = [(''/out/a.parquet'', ''PAR1age=63,;prediction=1,;''),
       (''/out/a.parquet'', ''PAR1age=41,;prediction=1,;'')]"
    by (simp add: example_run_same_stem) (auto simp: example_store_def)
  with a(1) have arts: "arts = [(''/out/a.parquet'', ''PAR1age=63,;prediction=1,;''),
       (''/out/a.parquet'', ''PAR1age=41,;prediction=1,;'')]"
    by (simp add: example_store_def)
  from a(2) [THEN spec, of 1] have "files s' ''/out/a.parquet'' = Some (snd (arts ! 1))"
    by (simp add: example_output_paths)
  with arts have "files s' ''/out/a.parquet'' = Some ''PAR1age=41,;prediction=1,;''" by simp
  with stems paths run w two show ?thesis by blast
qed

end
